theory Spec2Isabelle
  imports Main
begin

section \<open>Python values used by hanzo/httptools/messaging.py\<close>

text \<open>
  The module is Python 2: a \<open>str\<close> is a byte string, modelled as \<^typ>\<open>string\<close>.
  Exceptions are values: every \<open>raise\<close> of the source (all of them come from
  built-ins: tuple unpacking, \<open>int\<close>, \<open>list.pop\<close>) is an \<open>Inl\<close> result. A call
  that raises gives the exception only: the state of the objects it had changed
  before raising is not modelled.
\<close>

datatype error = ValueError | IndexError

definition CR :: char where "CR = CHR 0x0D"
definition LF :: char where "LF = CHR 0x0A"

text \<open>\<open>CRLF = '\r\n'\<close>\<close>

definition CRLF :: string where "CRLF = [CR, LF]"

text \<open>\<open>str.isspace\<close> on one byte: space, \<open>\t \n \x0b \x0c \r\<close>.\<close>

definition isspace :: "char \<Rightarrow> bool" where
  "isspace c = (c = CHR '' '' \<or> c = CHR 0x09 \<or> c = CHR 0x0A \<or> c = CHR 0x0B
                \<or> c = CHR 0x0C \<or> c = CHR 0x0D)"

definition py_lstrip :: "string \<Rightarrow> string" where
  "py_lstrip s = dropWhile isspace s"

definition py_rstrip :: "string \<Rightarrow> string" where
  "py_rstrip s = rev (dropWhile isspace (rev s))"

definition py_strip :: "string \<Rightarrow> string" where
  "py_strip s = py_rstrip (py_lstrip s)"

text \<open>\<open>str.lower\<close>: the bytes \<open>A..Z\<close> move to \<open>a..z\<close>.\<close>

definition lower_char :: "char \<Rightarrow> char" where
  "lower_char c = (let n = (of_char c :: nat) in
     if 65 \<le> n \<and> n \<le> 90 then char_of (n + 32) else c)"

definition py_lower :: "string \<Rightarrow> string" where
  "py_lower s = map lower_char s"

text \<open>\<open>s.split(sep, maxsplit)\<close> for a one-byte separator.\<close>

fun py_split :: "char \<Rightarrow> nat \<Rightarrow> string \<Rightarrow> string list" where
  "py_split sep 0 s = [s]"
| "py_split sep (Suc n) s =
     (if sep \<in> set s
      then takeWhile (\<lambda>c. c \<noteq> sep) s # py_split sep n (tl (dropWhile (\<lambda>c. c \<noteq> sep) s))
      else [s])"

text \<open>\<open>sub in s\<close> on strings.\<close>

fun is_prefix :: "string \<Rightarrow> string \<Rightarrow> bool" where
  "is_prefix [] ys = True"
| "is_prefix (x # xs) [] = False"
| "is_prefix (x # xs) (y # ys) = (x = y \<and> is_prefix xs ys)"

fun py_in :: "string \<Rightarrow> string \<Rightarrow> bool" where
  "py_in sub [] = (sub = [])"
| "py_in sub (y # ys) = (is_prefix sub (y # ys) \<or> py_in sub ys)"

text \<open>\<open>line.startswith(' ') or line.startswith('\t')\<close>\<close>

definition is_continuation :: "string \<Rightarrow> bool" where
  "is_continuation line =
     (case line of [] \<Rightarrow> False | c # _ \<Rightarrow> c = CHR '' '' \<or> c = CHR 0x09)"

text \<open>
  \<open>int(s, base)\<close> on a string, as Python 2 parses it: surrounding whitespace is
  dropped, one sign is allowed (with whitespace after it), base 16 allows a \<open>0x\<close>
  prefix before a digit, then at least one digit of the base must follow and nothing
  else. The result is unbounded. Anything else raises \<open>ValueError\<close>.
\<close>

definition digit_val :: "char \<Rightarrow> nat option" where
  "digit_val c = (let n = (of_char c :: nat) in
     if 48 \<le> n \<and> n \<le> 57 then Some (n - 48)
     else if 97 \<le> n \<and> n \<le> 122 then Some (n - 87)
     else if 65 \<le> n \<and> n \<le> 90 then Some (n - 55)
     else None)"

fun digits_val :: "nat \<Rightarrow> nat \<Rightarrow> string \<Rightarrow> nat option" where
  "digits_val b acc [] = Some acc"
| "digits_val b acc (c # cs) =
     (case digit_val c of
        None \<Rightarrow> None
      | Some d \<Rightarrow> if d < b then digits_val b (acc * b + d) cs else None)"

text \<open>The digits \<open>int\<close> accepts in base 16.\<close>

definition hex_digit :: "char \<Rightarrow> bool" where
  "hex_digit c = (case digit_val c of None \<Rightarrow> False | Some d \<Rightarrow> d < 16)"

definition strip_sign :: "string \<Rightarrow> bool \<times> string" where
  "strip_sign s =
     (case s of
        [] \<Rightarrow> (False, s)
      | c # cs \<Rightarrow>
          if c = CHR ''-'' then (True, py_lstrip cs)
          else if c = CHR ''+'' then (False, py_lstrip cs)
          else (False, s))"

definition strip_0x :: "nat \<Rightarrow> string \<Rightarrow> string" where
  "strip_0x base s =
     (case s of
        z # x # d # ds \<Rightarrow>
          if base = 16 \<and> z = CHR ''0'' \<and> (x = CHR ''x'' \<or> x = CHR ''X'')
             \<and> (case digit_val d of None \<Rightarrow> False | Some v \<Rightarrow> v < 16)
          then d # ds else s
      | _ \<Rightarrow> s)"

definition py_int :: "nat \<Rightarrow> string \<Rightarrow> error + int" where
  "py_int base s =
     (let (neg, s2) = strip_sign (py_strip s);
          s3 = strip_0x base s2
      in if s3 = [] then Inl ValueError
         else case digits_val base 0 s3 of
                None \<Rightarrow> Inl ValueError
              | Some n \<Rightarrow> Inr (if neg then - int n else int n))"

text \<open>Python slices \<open>text[:n]\<close> and \<open>text[n:]\<close>; a negative \<open>n\<close> counts from the end.\<close>

definition py_take :: "int \<Rightarrow> string \<Rightarrow> string" where
  "py_take n s = (if 0 \<le> n then take (nat n) s else take (length s - nat (- n)) s)"

definition py_drop :: "int \<Rightarrow> string \<Rightarrow> string" where
  "py_drop n s = (if 0 \<le> n then drop (nat n) s else drop (length s - nat (- n)) s)"

text \<open>\<open>text.find('\r\n')\<close>: the index of the first CRLF, \<open>None\<close> for Python's \<open>-1\<close>.\<close>

fun find_crlf :: "string \<Rightarrow> nat option" where
  "find_crlf [] = None"
| "find_crlf [c] = None"
| "find_crlf (a # b # cs) =
     (if a = CR \<and> b = LF then Some 0 else map_option Suc (find_crlf (b # cs)))"

section \<open>The buffer\<close>

text \<open>
  The parser is given a file-like object and uses \<open>write\<close>, \<open>seek\<close>, \<open>tell\<close> and
  \<open>readline\<close>. The model is the \<open>StringIO\<close> the module imports: the bytes and a
  position. \<open>write\<close> (here \<open>write_str\<close>) overwrites at the position (padding with NUL bytes when the
  position is past the end) and writing the empty string does nothing;
  \<open>readline\<close> reads from the position through the next LF, or to the end.
\<close>

record buffer =
  contents :: string
  pos :: nat

definition tell :: "buffer \<Rightarrow> nat" where
  "tell b = pos b"

definition seek :: "buffer \<Rightarrow> nat \<Rightarrow> buffer" where
  "seek b n = b\<lparr>pos := n\<rparr>"

definition write_str :: "buffer \<Rightarrow> string \<Rightarrow> buffer" where
  "write_str b s =
     (if s = [] then b
      else let c = (if length (contents b) < pos b
                    then contents b @ replicate (pos b - length (contents b)) (CHR 0x00)
                    else contents b)
           in b\<lparr>contents := take (pos b) c @ s @ drop (pos b + length s) c,
                pos := pos b + length s\<rparr>)"

definition readline :: "buffer \<Rightarrow> string \<times> buffer" where
  "readline b =
     (let rest = drop (pos b) (contents b);
          newpos = (if LF \<in> set rest
                    then pos b + length (takeWhile (\<lambda>c. c \<noteq> LF) rest) + 1
                    else length (contents b))
      in (take (newpos - pos b) rest, b\<lparr>pos := newpos\<rparr>))"

section \<open>HTTPHeader, RequestHeader, ResponseHeader\<close>

text \<open>\<open>HTTPHeader.mode\<close> is one of \<open>'close'\<close>, \<open>'length'\<close>, \<open>'chunked'\<close>.\<close>

datatype framing = Close | Length | Chunked

record http_header =
  headers :: "(string \<times> string) list"
  keep_alive :: bool
  h_mode :: framing
  content_length :: "int option"
  encoding :: "string option"
  trailers :: "(string \<times> string) list"

record request_header = http_header +
  "method" :: string
  target_uri :: string
  version :: string

record response_header = http_header +
  request :: request_header
  r_version :: "string option"
  code :: "int option"
  phrase :: "string option"

text \<open>
  The tables \<open>Methods.no_body\<close>, \<open>Codes.no_body\<close> and the constant
  \<open>Codes.Continue\<close> come from the module \<open>semantics\<close>, which is not part of these
  sources: they are parameters.
\<close>

record semantics =
  methods_no_body :: "string list"
  codes_no_body :: "int list"
  codes_Continue :: int

definition new_request_header :: request_header where
  "new_request_header =
     \<lparr>headers = [], keep_alive = True, h_mode = Close, content_length = None,
      encoding = None, trailers = [], method = [], target_uri = [], version = []\<rparr>"

definition new_response_header :: "request_header \<Rightarrow> response_header" where
  "new_response_header req =
     \<lparr>headers = [], keep_alive = True, h_mode = Close, content_length = None,
      encoding = None, trailers = [], request = req, r_version = None, code = None,
      phrase = None\<rparr>"

text \<open>\<open>HTTPHeader.add_trailer\<close>\<close>

definition add_trailer :: "'a http_header_scheme \<Rightarrow> string \<Rightarrow> error + 'a http_header_scheme" where
  "add_trailer h line =
     (if is_continuation line then
        (if trailers h = [] then Inl IndexError
         else let (k, v) = last (trailers h)
              in Inr (h\<lparr>trailers := butlast (trailers h) @ [(k, v @ '' '' @ py_strip line)]\<rparr>))
      else if line = CRLF then Inr h
      else (case py_split (CHR '':'') 1 line of
              [name, val] \<Rightarrow> Inr (h\<lparr>trailers := trailers h @ [(py_strip name, py_strip val)]\<rparr>)
            | _ \<Rightarrow> Inl ValueError))"

text \<open>One round of the loop \<open>for name, value in self.headers\<close> of \<open>add_header\<close>.\<close>

definition scan_field :: "string \<times> string \<Rightarrow> 'a http_header_scheme \<Rightarrow> error + 'a http_header_scheme" where
  "scan_field nv h =
     (let name = py_lower (fst nv); val = py_lower (snd nv) in
      case (if name = ''content-length'' \<and> h_mode h = Close
            then (case py_int 10 val of
                    Inl e \<Rightarrow> Inl e
                  | Inr n \<Rightarrow> Inr (h\<lparr>content_length := Some n, h_mode := Length\<rparr>))
            else Inr h) of
        Inl e \<Rightarrow> Inl e
      | Inr h1 \<Rightarrow>
          let h2 = (if name = ''transfer-encoding'' \<and> py_in ''chunked'' val
                    then h1\<lparr>h_mode := Chunked\<rparr> else h1);
              h3 = (if name = ''content-encoding'' then h2\<lparr>encoding := Some val\<rparr> else h2);
              h4 = (if name = ''connection''
                    then (if py_in ''keep-alive'' val then h3\<lparr>keep_alive := True\<rparr>
                          else if py_in ''close'' val then h3\<lparr>keep_alive := False\<rparr>
                          else h3)
                    else h3)
          in Inr h4)"

fun scan_fields :: "(string \<times> string) list \<Rightarrow> 'a http_header_scheme \<Rightarrow> error + 'a http_header_scheme" where
  "scan_fields [] h = Inr h"
| "scan_fields (nv # rest) h =
     (case scan_field nv h of Inl e \<Rightarrow> Inl e | Inr h' \<Rightarrow> scan_fields rest h')"

text \<open>\<open>HTTPHeader.add_header\<close>\<close>

definition add_header :: "'a http_header_scheme \<Rightarrow> string \<Rightarrow> error + 'a http_header_scheme" where
  "add_header h line =
     (if is_continuation line then
        (if headers h = [] then Inl IndexError
         else let (k, v) = last (headers h)
              in Inr (h\<lparr>headers := butlast (headers h) @ [(k, v @ '' '' @ py_strip line)]\<rparr>))
      else if line = CRLF then
        (case scan_fields (headers h) h of
           Inl e \<Rightarrow> Inl e
         | Inr h' \<Rightarrow> Inr (if h_mode h' = Close then h'\<lparr>keep_alive := False\<rparr> else h'))
      else (case py_split (CHR '':'') 1 line of
              [name, val] \<Rightarrow> Inr (h\<lparr>headers := headers h @ [(py_strip name, py_strip val)]\<rparr>)
            | _ \<Rightarrow> Inl ValueError))"

definition body_is_chunked :: "'a http_header_scheme \<Rightarrow> bool" where
  "body_is_chunked h = (h_mode h = Chunked)"

definition body_length :: "'a http_header_scheme \<Rightarrow> int option" where
  "body_length h = (if h_mode h = Length then content_length h else None)"

text \<open>\<open>RequestHeader.set_start_line\<close> and \<open>RequestHeader.has_body\<close>\<close>

definition RequestHeader_set_start_line :: "request_header \<Rightarrow> string \<Rightarrow> error + request_header" where
  "RequestHeader_set_start_line h line =
     (case py_split (CHR '' '') 2 (py_rstrip line) of
        [m, t, v] \<Rightarrow>
          let h1 = h\<lparr>method := m, target_uri := t, version := v\<rparr>
          in Inr (if v = ''HTTP/1.0'' then h1\<lparr>keep_alive := False\<rparr> else h1)
      | _ \<Rightarrow> Inl ValueError)"

definition RequestHeader_has_body :: "request_header \<Rightarrow> bool" where
  "RequestHeader_has_body h = (h_mode h = Chunked \<or> h_mode h = Length)"

text \<open>
  \<open>ResponseHeader.set_start_line\<close> and \<open>ResponseHeader.has_body\<close>. In
  \<open>self.content_length > 0\<close> a \<open>None\<close> compares below every number in Python 2.
\<close>

definition ResponseHeader_set_start_line :: "response_header \<Rightarrow> string \<Rightarrow> error + response_header" where
  "ResponseHeader_set_start_line h line =
     (case py_split (CHR '' '') 2 (py_rstrip line) of
        [v, c, p] \<Rightarrow>
          (case py_int 10 c of
             Inl e \<Rightarrow> Inl e
           | Inr n \<Rightarrow>
               let h1 = h\<lparr>r_version := Some v, code := Some n, phrase := Some p\<rparr>
               in Inr (if v = ''HTTP/1.0'' then h1\<lparr>keep_alive := False\<rparr> else h1))
      | _ \<Rightarrow> Inl ValueError)"

definition ResponseHeader_has_body :: "semantics \<Rightarrow> response_header \<Rightarrow> bool" where
  "ResponseHeader_has_body sem h =
     (if method (request h) \<in> set (methods_no_body sem) then False
      else if (case code h of None \<Rightarrow> False | Some c \<Rightarrow> c \<in> set (codes_no_body sem)) then False
      else if h_mode h = Chunked then True
      else if h_mode h = Length
           then (case content_length h of None \<Rightarrow> False | Some n \<Rightarrow> 0 < n)
      else True)"

section \<open>HTTPParser\<close>

text \<open>\<open>HTTPParser.mode\<close> is one of \<open>'start'\<close>, \<open>'headers'\<close>, \<open>'body'\<close>, \<open>'end'\<close>, \<open>'incomplete'\<close>.\<close>

datatype pmode = Start | Headers | Body | End | Incomplete

text \<open>
  The two body readers. A \<open>ChunkReader\<close> has a mode (\<open>'start'\<close>, \<open>'chunk'\<close>,
  \<open>'trailer'\<close>, \<open>'end'\<close>) and \<open>remaining\<close>; a \<open>LengthReader\<close> has \<open>remaining\<close>.
\<close>

datatype cmode = CStart | CChunk | CTrailer | CEnd

datatype reader = ChunkReader cmode int | LengthReader int

record 'h http_parser =
  buffer :: buffer
  offset :: nat
  header :: 'h
  body_offset :: int
  p_mode :: pmode
  body_reader :: "reader option"

record response_parser = "response_header http_parser" +
  interim :: "response_header list"

text \<open>\<open>HTTPParser.__init__\<close>, \<open>RequestParser.__init__\<close>, \<open>ResponseParser.__init__\<close>\<close>

definition RequestParser :: "buffer \<Rightarrow> request_header http_parser" where
  "RequestParser b =
     \<lparr>buffer = b, offset = tell b, header = new_request_header, body_offset = - 1,
      p_mode = Start, body_reader = None\<rparr>"

definition ResponseParser :: "buffer \<Rightarrow> request_header \<Rightarrow> response_parser" where
  "ResponseParser b req =
     \<lparr>buffer = b, offset = tell b, header = new_response_header req, body_offset = - 1,
      p_mode = Start, body_reader = None, interim = []\<rparr>"

definition headers_complete :: "('h, 'z) http_parser_scheme \<Rightarrow> bool" where
  "headers_complete p = (p_mode p = End \<or> p_mode p = Body)"

definition complete :: "('h, 'z) http_parser_scheme \<Rightarrow> bool" where
  "complete p = (p_mode p = End)"

text \<open>\<open>HTTPParser.close\<close>\<close>

definition close :: "('h, 'z) http_parser_scheme \<Rightarrow> ('h, 'z) http_parser_scheme" where
  "close p =
     (if p_mode p = Start \<or> (body_reader p = None \<and> p_mode p = Body) then p\<lparr>p_mode := End\<rparr>
      else if p_mode p \<noteq> End then p\<lparr>p_mode := Incomplete\<rparr>
      else p)"

text \<open>
  \<open>HTTPParser.feed_line\<close>: the result is the line (if one was found), the parser and
  the rest of the text.
\<close>

definition feed_line ::
  "('h, 'z) http_parser_scheme \<Rightarrow> string \<Rightarrow> string option \<times> ('h, 'z) http_parser_scheme \<times> string" where
  "feed_line p text =
     (case find_crlf text of
        Some nl \<Rightarrow>
          let b1 = write_str (buffer p) (take (nl + 2) text);
              b2 = seek b1 (offset p);
              (line, b3) = readline b2
          in (Some line, p\<lparr>buffer := b3, offset := tell b3\<rparr>, drop (nl + 2) text)
      | None \<Rightarrow> (None, p\<lparr>buffer := write_str (buffer p) text\<rparr>, []))"

text \<open>\<open>HTTPParser.feed_length\<close>\<close>

definition feed_length ::
  "('h, 'z) http_parser_scheme \<Rightarrow> string \<Rightarrow> int \<Rightarrow> int \<times> ('h, 'z) http_parser_scheme \<times> string" where
  "feed_length p text remaining =
     (let body = py_take remaining text;
          b1 = write_str (buffer p) body
      in (remaining - int (length body), p\<lparr>buffer := b1, offset := tell b1\<rparr>,
          py_drop remaining text))"

text \<open>
  \<open>HTTPParser.feed_start\<close>. The header's \<open>set_start_line\<close> is a method of the subclass:
  it is passed as an argument.
\<close>

definition feed_start ::
  "('h \<Rightarrow> string \<Rightarrow> error + 'h) \<Rightarrow> ('h, 'z) http_parser_scheme \<Rightarrow> string
     \<Rightarrow> error + ('h, 'z) http_parser_scheme \<times> string" where
  "feed_start set_start_line p text =
     (case feed_line p text of
        (None, p1, text1) \<Rightarrow> Inr (p1, text1)
      | (Some line, p1, text1) \<Rightarrow>
          if line \<noteq> CRLF
          then (case set_start_line (header p1) line of
                  Inl e \<Rightarrow> Inl e
                | Inr h \<Rightarrow> Inr (p1\<lparr>header := h, p_mode := Headers\<rparr>, text1))
          else Inr (p1, text1))"

lemma find_crlf_bound: "find_crlf t = Some nl \<Longrightarrow> nl + 2 \<le> length t"
  by (induction t arbitrary: nl rule: find_crlf.induct) (auto split: if_splits)

lemma feed_line_shrinks:
  "text \<noteq> [] \<Longrightarrow> feed_line p text = (line, p1, text1) \<Longrightarrow> length text1 < length text"
  by (auto simp: feed_line_def Let_def split: option.splits prod.splits dest: find_crlf_bound)

text \<open>\<open>HTTPParser.feed_headers\<close>: the \<open>while text\<close> loop.\<close>

function feed_headers ::
  "('a http_header_scheme, 'z) http_parser_scheme \<Rightarrow> string
     \<Rightarrow> error + ('a http_header_scheme, 'z) http_parser_scheme \<times> string" where
  "feed_headers p text =
     (if text = [] then Inr (p, text)
      else case feed_line p text of
             (None, p1, text1) \<Rightarrow> feed_headers p1 text1
           | (Some line, p1, text1) \<Rightarrow>
               (case add_header (header p1) line of
                  Inl e \<Rightarrow> Inl e
                | Inr h \<Rightarrow>
                    if line = CRLF then Inr (p1\<lparr>header := h, p_mode := Body\<rparr>, text1)
                    else feed_headers (p1\<lparr>header := h\<rparr>) text1))"
  by pat_completeness auto
termination
  by (relation "measure (\<lambda>(p, text). length text)") (auto dest: feed_line_shrinks [OF _ sym])

section \<open>ChunkReader and LengthReader\<close>

text \<open>
  One round of the \<open>while text\<close> loop of \<open>ChunkReader.feed\<close>, in its three parts. The
  reader's \<open>mode\<close> and \<open>remaining\<close> are carried beside the parser.
\<close>

definition chunk_size_part ::
  "cmode \<Rightarrow> int \<Rightarrow> ('a http_header_scheme, 'z) http_parser_scheme \<Rightarrow> string
     \<Rightarrow> error + cmode \<times> int \<times> ('a http_header_scheme, 'z) http_parser_scheme \<times> string" where
  "chunk_size_part cm remaining p text =
     (if cm = CStart then
        (case feed_line p text of
           (None, p1, text1) \<Rightarrow> Inr (cm, remaining, p1, text1)
         | (Some line, p1, text1) \<Rightarrow>
             (case py_int 16 (hd (py_split (CHR '';'') 1 line)) of
                Inl e \<Rightarrow> Inl e
              | Inr chunk \<Rightarrow>
                  Inr (if chunk = 0 then CTrailer else CChunk, chunk, p1, text1)))
      else Inr (cm, remaining, p, text))"

definition chunk_data_part ::
  "cmode \<Rightarrow> int \<Rightarrow> ('a http_header_scheme, 'z) http_parser_scheme \<Rightarrow> string
     \<Rightarrow> cmode \<times> int \<times> ('a http_header_scheme, 'z) http_parser_scheme \<times> string" where
  "chunk_data_part cm remaining p text =
     (if text \<noteq> [] \<and> cm = CChunk then
        (let (remaining1, p1, text1) =
               (if 0 < remaining then feed_length p text remaining else (remaining, p, text))
         in if remaining1 = 0 then
              (case feed_line p1 text1 of
                 (end_of_chunk, p2, text2) \<Rightarrow>
                   (if end_of_chunk \<noteq> None \<and> end_of_chunk \<noteq> Some [] then CStart else cm,
                    remaining1, p2, text2))
            else (cm, remaining1, p1, text1))
      else (cm, remaining, p, text))"

definition chunk_trailer_part ::
  "cmode \<Rightarrow> int \<Rightarrow> ('a http_header_scheme, 'z) http_parser_scheme \<Rightarrow> string
     \<Rightarrow> error + cmode \<times> int \<times> ('a http_header_scheme, 'z) http_parser_scheme \<times> string" where
  "chunk_trailer_part cm remaining p text =
     (if text \<noteq> [] \<and> cm = CTrailer then
        (case feed_line p text of
           (None, p1, text1) \<Rightarrow> Inr (cm, remaining, p1, text1)
         | (Some line, p1, text1) \<Rightarrow>
             (case add_trailer (header p1) line of
                Inl e \<Rightarrow> Inl e
              | Inr h \<Rightarrow>
                  Inr (if line = CRLF then CEnd else cm, remaining, p1\<lparr>header := h\<rparr>, text1)))
      else Inr (cm, remaining, p, text))"

definition chunk_round ::
  "cmode \<Rightarrow> int \<Rightarrow> ('a http_header_scheme, 'z) http_parser_scheme \<Rightarrow> string
     \<Rightarrow> error + cmode \<times> int \<times> ('a http_header_scheme, 'z) http_parser_scheme \<times> string" where
  "chunk_round cm remaining p text =
     (case chunk_size_part cm remaining p text of
        Inl e \<Rightarrow> Inl e
      | Inr (cm1, remaining1, p1, text1) \<Rightarrow>
          (case chunk_data_part cm1 remaining1 p1 text1 of
             (cm2, remaining2, p2, text2) \<Rightarrow> chunk_trailer_part cm2 remaining2 p2 text2))"

text \<open>
  The loop of \<open>ChunkReader.feed\<close>. It need not end (a round in mode \<open>'chunk'\<close> with a
  negative \<open>remaining\<close> consumes nothing), so it is a partial function: \<open>None\<close> is
  a call that never returns.
\<close>

partial_function (option) ChunkReader_loop ::
  "cmode \<Rightarrow> int \<Rightarrow> ('a http_header_scheme, 'z) http_parser_scheme \<Rightarrow> string
     \<Rightarrow> (error + cmode \<times> int \<times> ('a http_header_scheme, 'z) http_parser_scheme \<times> string) option" where
  "ChunkReader_loop cm remaining p text =
     (if text = [] then Some (Inr (cm, remaining, p, text))
      else case chunk_round cm remaining p text of
             Inl e \<Rightarrow> Some (Inl e)
           | Inr (cm1, remaining1, p1, text1) \<Rightarrow>
               if cm1 = CEnd then Some (Inr (cm1, remaining1, p1\<lparr>p_mode := End\<rparr>, text1))
               else ChunkReader_loop cm1 remaining1 p1 text1)"

declare ChunkReader_loop.simps [code]

text \<open>\<open>ChunkReader.feed\<close>: the reader is the parser's \<open>body_reader\<close>, updated in place.\<close>

definition ChunkReader_feed ::
  "cmode \<Rightarrow> int \<Rightarrow> ('a http_header_scheme, 'z) http_parser_scheme \<Rightarrow> string
     \<Rightarrow> (error + ('a http_header_scheme, 'z) http_parser_scheme \<times> string) option" where
  "ChunkReader_feed cm remaining p text =
     (case ChunkReader_loop cm remaining p text of
        None \<Rightarrow> None
      | Some (Inl e) \<Rightarrow> Some (Inl e)
      | Some (Inr (cm1, remaining1, p1, text1)) \<Rightarrow>
          Some (Inr (p1\<lparr>body_reader := Some (ChunkReader cm1 remaining1)\<rparr>, text1)))"

text \<open>\<open>LengthReader.feed\<close>\<close>

definition LengthReader_feed ::
  "int \<Rightarrow> ('h, 'z) http_parser_scheme \<Rightarrow> string \<Rightarrow> ('h, 'z) http_parser_scheme \<times> string" where
  "LengthReader_feed remaining p text =
     (let (remaining1, p1, text1) =
            (if 0 < remaining then feed_length p text remaining else (remaining, p, text));
          p2 = (if remaining1 \<le> 0 then p1\<lparr>p_mode := End\<rparr> else p1)
      in (p2\<lparr>body_reader := Some (LengthReader remaining1)\<rparr>, text1))"

section \<open>HTTPParser.feed, RequestParser, ResponseParser\<close>

text \<open>The three \<open>if\<close> blocks of \<open>HTTPParser.feed\<close>.\<close>

definition feed_start_block ::
  "('h \<Rightarrow> string \<Rightarrow> error + 'h) \<Rightarrow> ('h, 'z) http_parser_scheme \<Rightarrow> string
     \<Rightarrow> error + ('h, 'z) http_parser_scheme \<times> string" where
  "feed_start_block set_start_line p text =
     (if text \<noteq> [] \<and> p_mode p = Start then feed_start set_start_line p text else Inr (p, text))"

definition enter_body ::
  "('a http_header_scheme \<Rightarrow> bool) \<Rightarrow> ('a http_header_scheme, 'z) http_parser_scheme
     \<Rightarrow> ('a http_header_scheme, 'z) http_parser_scheme" where
  "enter_body has_body p =
     (if p_mode p = Body then
        (if \<not> has_body (header p) then p\<lparr>p_mode := End\<rparr>
         else p\<lparr>body_offset := int (offset p),
                body_reader :=
                  (if body_is_chunked (header p) then Some (ChunkReader CStart 0)
                   else case body_length (header p) of
                          Some len \<Rightarrow> Some (LengthReader len)
                        | None \<Rightarrow> None)\<rparr>)
      else p)"

definition feed_headers_block ::
  "('a http_header_scheme \<Rightarrow> bool) \<Rightarrow> ('a http_header_scheme, 'z) http_parser_scheme \<Rightarrow> string
     \<Rightarrow> error + ('a http_header_scheme, 'z) http_parser_scheme \<times> string" where
  "feed_headers_block has_body p text =
     (if text \<noteq> [] \<and> p_mode p = Headers then
        (case feed_headers p text of
           Inl e \<Rightarrow> Inl e
         | Inr (p1, text1) \<Rightarrow> Inr (enter_body has_body p1, text1))
      else Inr (p, text))"

definition feed_body_block ::
  "('a http_header_scheme, 'z) http_parser_scheme \<Rightarrow> string
     \<Rightarrow> (error + ('a http_header_scheme, 'z) http_parser_scheme \<times> string) option" where
  "feed_body_block p text =
     (if text \<noteq> [] \<and> p_mode p = Body then
        (case body_reader p of
           Some (ChunkReader cm remaining) \<Rightarrow> ChunkReader_feed cm remaining p text
         | Some (LengthReader remaining) \<Rightarrow> Some (Inr (LengthReader_feed remaining p text))
         | None \<Rightarrow> Some (Inr (p\<lparr>buffer := write_str (buffer p) text\<rparr>, [])))
      else Some (Inr (p, text)))"

text \<open>
  \<open>HTTPParser.feed\<close>, with the header's two subclass methods as arguments. The result
  is \<open>None\<close> when the call does not return, \<open>Some (Inl e)\<close> when it raises \<open>e\<close>, and
  \<open>Some (Inr (p', rest))\<close> when it returns \<open>rest\<close> and leaves the parser as \<open>p'\<close>.
\<close>

definition HTTPParser_feed ::
  "('a http_header_scheme \<Rightarrow> string \<Rightarrow> error + 'a http_header_scheme)
     \<Rightarrow> ('a http_header_scheme \<Rightarrow> bool)
     \<Rightarrow> ('a http_header_scheme, 'z) http_parser_scheme \<Rightarrow> string
     \<Rightarrow> (error + ('a http_header_scheme, 'z) http_parser_scheme \<times> string) option" where
  "HTTPParser_feed set_start_line has_body p text =
     (case feed_start_block set_start_line p text of
        Inl e \<Rightarrow> Some (Inl e)
      | Inr (p1, text1) \<Rightarrow>
          (case feed_headers_block has_body p1 text1 of
             Inl e \<Rightarrow> Some (Inl e)
           | Inr (p2, text2) \<Rightarrow> feed_body_block p2 text2))"

text \<open>\<open>RequestParser\<close> inherits \<open>feed\<close>; its header is a \<open>RequestHeader\<close>.\<close>

definition RequestParser_feed ::
  "request_header http_parser \<Rightarrow> string
     \<Rightarrow> (error + request_header http_parser \<times> string) option" where
  "RequestParser_feed p text =
     HTTPParser_feed RequestHeader_set_start_line RequestHeader_has_body p text"

text \<open>\<open>ResponseParser.feed\<close>\<close>

definition absorb_interim :: "response_parser \<Rightarrow> response_parser" where
  "absorb_interim p =
     p\<lparr>interim := interim p @ [header p],
       header := new_response_header (request (header p)),
       body_offset := - 1, p_mode := Start, body_reader := None\<rparr>"

definition ResponseParser_feed ::
  "semantics \<Rightarrow> response_parser \<Rightarrow> string \<Rightarrow> (error + response_parser \<times> string) option" where
  "ResponseParser_feed sem p text =
     (case HTTPParser_feed ResponseHeader_set_start_line (ResponseHeader_has_body sem) p text of
        None \<Rightarrow> None
      | Some (Inl e) \<Rightarrow> Some (Inl e)
      | Some (Inr (p1, text1)) \<Rightarrow>
          if complete p1 \<and> code (header p1) = Some (codes_Continue sem)
          then HTTPParser_feed ResponseHeader_set_start_line (ResponseHeader_has_body sem)
                 (absorb_interim p1) text1
          else Some (Inr (p1, text1)))"

section \<open>Callers, observations and example inputs\<close>

text \<open>
  A caller feeds the chunks of a stream one after the other. \<open>feeds\<close> makes the
  calls in order on the same parser and gives the outcome of the last one; the
  leftover of an earlier call is the caller's to place and is not fed again here.
\<close>

fun feeds ::
  "('p \<Rightarrow> string \<Rightarrow> (error + 'p \<times> string) option) \<Rightarrow> 'p \<Rightarrow> string list
     \<Rightarrow> (error + 'p \<times> string) option" where
  "feeds feed p [] = Some (Inr (p, []))"
| "feeds feed p [chunk] = feed p chunk"
| "feeds feed p (chunk # chunks) =
     (case feed p chunk of
        None \<Rightarrow> None
      | Some (Inl e) \<Rightarrow> Some (Inl e)
      | Some (Inr (p1, rest)) \<Rightarrow> feeds feed p1 chunks)"


text \<open>A message cut into chunks of one byte.\<close>

definition bytewise :: "string \<Rightarrow> string list" where
  "bytewise s = map (\<lambda>c. [c]) s"

text \<open>The parser and the leftover of a call that returned.\<close>

definition returned_parser :: "(error + 'p \<times> string) option \<Rightarrow> 'p option" where
  "returned_parser r = (case r of Some (Inr (p, rest)) \<Rightarrow> Some p | _ \<Rightarrow> None)"

definition returned_rest :: "(error + 'p \<times> string) option \<Rightarrow> string option" where
  "returned_rest r = (case r of Some (Inr (p, rest)) \<Rightarrow> Some rest | _ \<Rightarrow> None)"


definition empty_buffer :: buffer where
  "empty_buffer = \<lparr>contents = [], pos = 0\<rparr>"

text \<open>An instance of the tables of \<open>semantics\<close> for the examples.\<close>

definition example_semantics :: semantics where
  "example_semantics =
     \<lparr>methods_no_body = [''HEAD''], codes_no_body = [100, 101, 204, 304], codes_Continue = 100\<rparr>"

text \<open>Observations of a response parser: the status code of the current header, the
  codes of the archived interim headers, and the header fields of any parser.\<close>

definition current_code :: "response_parser \<Rightarrow> int option" where
  "current_code p = code (header p)"

definition interim_codes :: "response_parser \<Rightarrow> int option list" where
  "interim_codes p = map code (interim p)"

definition header_fields :: "('a http_header_scheme, 'z) http_parser_scheme \<Rightarrow> (string \<times> string) list" where
  "header_fields p = headers (header p)"

text \<open>Example messages.\<close>

definition get_request :: string where
  "get_request = ''GET / HTTP/1.1'' @ CRLF @ ''Host: a'' @ CRLF @ CRLF"

definition get_header :: request_header where
  "get_header = new_request_header\<lparr>method := ''GET'', target_uri := ''/'', version := ''HTTP/1.1''\<rparr>"

definition chunked_request_head :: string where
  "chunked_request_head =
     ''POST /x HTTP/1.1'' @ CRLF @ ''Transfer-Encoding: chunked'' @ CRLF @ CRLF"



definition continue_response :: string where
  "continue_response = ''HTTP/1.1 100 Continue'' @ CRLF @ ''Content-Length: 0'' @ CRLF @ CRLF"

definition ok_response :: string where
  "ok_response = ''HTTP/1.1 200 OK'' @ CRLF @ ''Content-Length: 2'' @ CRLF @ CRLF @ ''ok''"

section \<open>close\<close>

text \<open>
  Claim C3. For every parser state, \<open>close()\<close> in \<open>Start\<close>, or in \<open>Body\<close> with no body
  reader installed, changes the mode to \<open>End\<close> (and nothing else), so that
  \<open>complete()\<close> is true; in every other state but \<open>End\<close> (headers not complete, or
  \<open>Body\<close> with a length or chunk reader installed) it changes the mode to
  \<open>Incomplete\<close>.
\<close>

theorem close_semantics:
  "(p_mode p = Start \<or> (p_mode p = Body \<and> body_reader p = None)
      \<longrightarrow> close p = p\<lparr>p_mode := End\<rparr> \<and> complete (close p))
   \<and> (p_mode p \<noteq> End \<and> p_mode p \<noteq> Start \<and> \<not> (p_mode p = Body \<and> body_reader p = None)
      \<longrightarrow> close p = p\<lparr>p_mode := Incomplete\<rparr> \<and> \<not> complete (close p))"
  by (simp add: close_def complete_def)

theorem close_semantics_witness:
  "p_mode (RequestParser empty_buffer) = Start
   \<and> complete (close (RequestParser empty_buffer))
   \<and> p_mode ((RequestParser empty_buffer)\<lparr>p_mode := Headers\<rparr>) \<noteq> End
   \<and> p_mode (close ((RequestParser empty_buffer)\<lparr>p_mode := Headers\<rparr>)) = Incomplete
   \<and> p_mode (close ((RequestParser empty_buffer)
         \<lparr>p_mode := Body, body_reader := Some (LengthReader 3)\<rparr>)) = Incomplete"
  using close_semantics [of "RequestParser empty_buffer"]
    close_semantics [of "(RequestParser empty_buffer)\<lparr>p_mode := Headers\<rparr>"]
    close_semantics [of "(RequestParser empty_buffer)
         \<lparr>p_mode := Body, body_reader := Some (LengthReader 3)\<rparr>"]
  by (simp add: RequestParser_def complete_def close_def)

section \<open>Folding and framing resolution in the header\<close>

text \<open>
  Claim C9. \<open>add_header\<close> (and \<open>add_trailer\<close>) on a continuation line, one whose first
  byte is a space or a tab, raises \<open>IndexError\<close> (the pop from an empty list) when
  the header list (the trailer list) is empty, and returns when the list has a field.
\<close>

theorem continuation_on_empty_list:
  "(c = CHR '' '' \<or> c = CHR 0x09 \<longrightarrow>
      (headers h = [] \<longrightarrow> add_header h (c # rest) = Inl IndexError)
      \<and> (headers h \<noteq> [] \<longrightarrow> (\<exists>h'. add_header h (c # rest) = Inr h'))
      \<and> (trailers h = [] \<longrightarrow> add_trailer h (c # rest) = Inl IndexError)
      \<and> (trailers h \<noteq> [] \<longrightarrow> (\<exists>h'. add_trailer h (c # rest) = Inr h')))"
  by (auto simp: add_header_def add_trailer_def is_continuation_def split: prod.splits)

theorem continuation_on_empty_list_witness:
  "add_header new_request_header ('' x'' @ CRLF) = Inl IndexError
   \<and> add_trailer new_request_header (CHR 0x09 # ''x'' @ CRLF) = Inl IndexError
   \<and> (\<exists>h'. add_header (new_request_header\<lparr>headers := [(''A'', ''b'')]\<rparr>) ('' x'' @ CRLF) = Inr h')
   \<and> (\<exists>h'. add_trailer (new_request_header\<lparr>trailers := [(''A'', ''b'')]\<rparr>) ('' x'' @ CRLF) = Inr h')"
  using continuation_on_empty_list [of "CHR '' ''" new_request_header "''x'' @ CRLF"]
    continuation_on_empty_list [of "CHR 0x09" new_request_header "''x'' @ CRLF"]
    continuation_on_empty_list [of "CHR '' ''" "new_request_header\<lparr>headers := [(''A'', ''b'')]\<rparr>" "''x'' @ CRLF"]
    continuation_on_empty_list [of "CHR '' ''" "new_request_header\<lparr>trailers := [(''A'', ''b'')]\<rparr>" "''x'' @ CRLF"]
  by (simp add: new_request_header_def)

lemma scan_field_chunked_stays:
  "h_mode h = Chunked \<Longrightarrow>
     \<exists>h'. scan_field nv h = Inr h' \<and> h_mode h' = Chunked \<and> content_length h' = content_length h"
  by (simp add: scan_field_def Let_def)

lemma scan_fields_chunked_stays:
  "h_mode h = Chunked \<Longrightarrow>
     \<exists>h'. scan_fields fs h = Inr h' \<and> h_mode h' = Chunked \<and> content_length h' = content_length h"
proof (induction fs arbitrary: h)
  case Nil
  then show ?case by simp
next
  case (Cons nv fs)
  from scan_field_chunked_stays [OF Cons.prems, of nv]
  obtain h1 where h1: "scan_field nv h = Inr h1" "h_mode h1 = Chunked"
    "content_length h1 = content_length h" by blast
  from Cons.IH [OF h1(2)] h1 show ?case by auto
qed

lemma scan_field_sets_chunked:
  "py_lower n = ''transfer-encoding'' \<Longrightarrow> py_in ''chunked'' (py_lower v) \<Longrightarrow>
     scan_field (n, v) h = Inr h' \<Longrightarrow> h_mode h' = Chunked"
  by (auto simp: scan_field_def Let_def split: if_splits sum.splits)

lemma scan_fields_append:
  "scan_fields (xs @ ys) h =
     (case scan_fields xs h of Inl e \<Rightarrow> Inl e | Inr h' \<Rightarrow> scan_fields ys h')"
  by (induction xs arbitrary: h) (auto split: sum.splits)

lemma scan_fields_sets_chunked:
  assumes "py_lower n = ''transfer-encoding''" "py_in ''chunked'' (py_lower v)"
    and "scan_fields (pre @ (n, v) # post) h = Inr h'"
  shows "h_mode h' = Chunked"
proof -
  from assms(3) obtain h1 h2 where h1: "scan_fields pre h = Inr h1"
    and h2: "scan_field (n, v) h1 = Inr h2" and h3: "scan_fields post h2 = Inr h'"
    by (auto simp: scan_fields_append split: sum.splits)
  from scan_field_sets_chunked [OF assms(1,2) h2] have "h_mode h2 = Chunked" .
  from scan_fields_chunked_stays [OF this, of post] h3 show ?thesis by auto
qed

lemma scan_field_no_signal:
  "h_mode h = Close \<Longrightarrow> py_lower (fst nv) \<noteq> ''content-length'' \<Longrightarrow>
   \<not> (py_lower (fst nv) = ''transfer-encoding'' \<and> py_in ''chunked'' (py_lower (snd nv))) \<Longrightarrow>
     \<exists>h'. scan_field nv h = Inr h' \<and> h_mode h' = Close"
  by (auto simp: scan_field_def Let_def)

lemma scan_fields_no_signal:
  "h_mode h = Close \<Longrightarrow>
   \<forall>nv \<in> set fs. py_lower (fst nv) \<noteq> ''content-length''
      \<and> \<not> (py_lower (fst nv) = ''transfer-encoding'' \<and> py_in ''chunked'' (py_lower (snd nv))) \<Longrightarrow>
     \<exists>h'. scan_fields fs h = Inr h' \<and> h_mode h' = Close"
proof (induction fs arbitrary: h)
  case Nil
  then show ?case by simp
next
  case (Cons nv fs)
  from scan_field_no_signal [of h nv] Cons.prems
  obtain h1 where h1: "scan_field nv h = Inr h1" "h_mode h1 = Close" by auto
  from Cons.IH [OF h1(2)] Cons.prems(2) h1(1) show ?case by auto
qed

lemma CRLF_not_continuation: "\<not> is_continuation CRLF"
  by (simp add: is_continuation_def CRLF_def CR_def)

text \<open>
  Claim C2. On the blank line, \<open>add_header\<close> scans the fields in the order of the
  list. (1) With a \<open>Transfer-Encoding\<close> field holding \<open>chunked\<close> somewhere after a
  \<open>Content-Length\<close> field, a scan that returns leaves the framing \<open>Chunked\<close>.
  (2) A \<open>Content-Length\<close> field met while the framing is \<open>Chunked\<close> changes nothing.
  (3) From framing \<open>Close\<close>, with no \<open>Content-Length\<close> field and no
  \<open>Transfer-Encoding\<close> field holding \<open>chunked\<close>, the scan returns with framing
  \<open>Close\<close> and \<open>keep_alive\<close> false, whatever the other fields (a \<open>Connection\<close>
  field among them) say.
\<close>

theorem framing_resolution:
  "(headers h = pre @ (n1, v1) # mid @ (n2, v2) # post
      \<and> py_lower n1 = ''content-length''
      \<and> py_lower n2 = ''transfer-encoding'' \<and> py_in ''chunked'' (py_lower v2)
      \<and> add_header h CRLF = Inr h'
    \<longrightarrow> h_mode h' = Chunked)
   \<and> (h_mode h = Chunked \<and> py_lower n = ''content-length''
    \<longrightarrow> scan_field (n, v) h = Inr h)
   \<and> (h_mode h = Close
      \<and> (\<forall>nv \<in> set (headers h). py_lower (fst nv) \<noteq> ''content-length''
            \<and> \<not> (py_lower (fst nv) = ''transfer-encoding''
                  \<and> py_in ''chunked'' (py_lower (snd nv))))
    \<longrightarrow> (\<exists>h''. add_header h CRLF = Inr h'' \<and> h_mode h'' = Close \<and> \<not> keep_alive h''))"
proof (intro conjI impI)
  assume a: "headers h = pre @ (n1, v1) # mid @ (n2, v2) # post
      \<and> py_lower n1 = ''content-length''
      \<and> py_lower n2 = ''transfer-encoding'' \<and> py_in ''chunked'' (py_lower v2)
      \<and> add_header h CRLF = Inr h'"
  then obtain h1 where h1: "scan_fields ((pre @ (n1, v1) # mid) @ (n2, v2) # post) h = Inr h1"
    and h': "h' = (if h_mode h1 = Close then h1\<lparr>keep_alive := False\<rparr> else h1)"
    by (auto simp: add_header_def CRLF_not_continuation split: sum.splits)
  from a scan_fields_sets_chunked [OF _ _ h1] have "h_mode h1 = Chunked" by blast
  with h' show "h_mode h' = Chunked" by simp
next
  assume "h_mode h = Chunked \<and> py_lower n = ''content-length''"
  then show "scan_field (n, v) h = Inr h"
    by (simp add: scan_field_def Let_def)
next
  assume a: "h_mode h = Close
      \<and> (\<forall>nv \<in> set (headers h). py_lower (fst nv) \<noteq> ''content-length''
            \<and> \<not> (py_lower (fst nv) = ''transfer-encoding''
                  \<and> py_in ''chunked'' (py_lower (snd nv))))"
  with scan_fields_no_signal [of h "headers h"]
  obtain h1 where "scan_fields (headers h) h = Inr h1" "h_mode h1 = Close" by blast
  then show "\<exists>h''. add_header h CRLF = Inr h'' \<and> h_mode h'' = Close \<and> \<not> keep_alive h''"
    by (simp add: add_header_def CRLF_not_continuation)
qed

theorem framing_resolution_witness:
  "add_header (new_request_header\<lparr>headers := [(''Content-Length'', ''5''), (''Transfer-Encoding'', ''chunked'')]\<rparr>) CRLF
     = Inr (new_request_header\<lparr>headers := [(''Content-Length'', ''5''), (''Transfer-Encoding'', ''chunked'')],
              content_length := Some 5, h_mode := Chunked\<rparr>)
   \<and> h_mode (new_request_header\<lparr>headers := [(''Content-Length'', ''5''), (''Transfer-Encoding'', ''chunked'')],
              content_length := Some 5, h_mode := Chunked\<rparr>) = Chunked
   \<and> scan_field (''Content-Length'', ''7'') (new_request_header\<lparr>h_mode := Chunked\<rparr>)
       = Inr (new_request_header\<lparr>h_mode := Chunked\<rparr>)
   \<and> (\<exists>h''. add_header (new_request_header\<lparr>headers := [(''Connection'', ''keep-alive'')]\<rparr>) CRLF = Inr h''
          \<and> h_mode h'' = Close \<and> \<not> keep_alive h'')"
proof -
  let ?hA = "new_request_header\<lparr>headers := [(''Content-Length'', ''5''), (''Transfer-Encoding'', ''chunked'')]\<rparr>"
  let ?hA' = "new_request_header\<lparr>headers := [(''Content-Length'', ''5''), (''Transfer-Encoding'', ''chunked'')],
              content_length := Some 5, h_mode := Chunked\<rparr>"
  let ?hC = "new_request_header\<lparr>headers := [(''Connection'', ''keep-alive'')]\<rparr>"
  have a1: "add_header ?hA CRLF = Inr ?hA'" by code_simp
  have a2: "headers ?hA = [] @ (''Content-Length'', ''5'') # [] @ (''Transfer-Encoding'', ''chunked'') # []"
    by simp
  have a3: "py_lower ''Content-Length'' = ''content-length''" by code_simp
  have a4: "py_lower ''Transfer-Encoding'' = ''transfer-encoding''" by code_simp
  have a5: "py_in ''chunked'' (py_lower ''chunked'')" by code_simp
  have A: "h_mode ?hA' = Chunked"
    using framing_resolution [of ?hA "[]" "''Content-Length''" "''5''" "[]" "''Transfer-Encoding''" "''chunked''" "[]" ?hA']
      a1 a2 a3 a4 a5 by blast
  have b1: "h_mode (new_request_header\<lparr>h_mode := Chunked\<rparr>) = Chunked" by simp
  have B: "scan_field (''Content-Length'', ''7'') (new_request_header\<lparr>h_mode := Chunked\<rparr>)
       = Inr (new_request_header\<lparr>h_mode := Chunked\<rparr>)"
    using framing_resolution [of "new_request_header\<lparr>h_mode := Chunked\<rparr>" _ _ _ _ _ _ _ _ "''Content-Length''" "''7''"]
      b1 a3 by blast
  have c1: "h_mode ?hC = Close" by (simp add: new_request_header_def)
  have c2: "py_lower ''Connection'' \<noteq> ''content-length'' \<and> py_lower ''Connection'' \<noteq> ''transfer-encoding''"
    by code_simp
  have c3: "\<forall>nv \<in> set (headers ?hC). py_lower (fst nv) \<noteq> ''content-length''
            \<and> \<not> (py_lower (fst nv) = ''transfer-encoding''
                  \<and> py_in ''chunked'' (py_lower (snd nv)))"
    using c2 by simp
  have C: "\<exists>h''. add_header ?hC CRLF = Inr h'' \<and> h_mode h'' = Close \<and> \<not> keep_alive h''"
    using framing_resolution [of ?hC] c1 c3 by blast
  from a1 A B C show ?thesis by blast
qed

section \<open>Chunk boundaries\<close>

text \<open>
  A call of \<open>feed\<close> in mode \<open>Start\<close> with one byte finds no CRLF in its text: the
  byte goes to the buffer and nothing else changes.
\<close>

lemma feed_one_byte_in_Start:
  "p_mode p = Start \<Longrightarrow>
     HTTPParser_feed ssl hb p [c] = Some (Inr (p\<lparr>buffer := write_str (buffer p) [c]\<rparr>, []))"
  by (simp add: HTTPParser_feed_def feed_start_block_def feed_start_def feed_line_def
      feed_headers_block_def feed_body_block_def)

lemma feeds_bytewise_in_Start:
  "p_mode p = Start \<Longrightarrow>
     \<exists>p'. feeds (HTTPParser_feed ssl hb) p (bytewise s) = Some (Inr (p', []))
          \<and> p_mode p' = Start \<and> header p' = header p"
proof (induction s arbitrary: p)
  case Nil
  then show ?case by (simp add: bytewise_def)
next
  case (Cons c s)
  let ?p1 = "p\<lparr>buffer := write_str (buffer p) [c]\<rparr>"
  have s1: "HTTPParser_feed ssl hb p [c] = Some (Inr (?p1, []))"
    using Cons.prems by (rule feed_one_byte_in_Start)
  show ?case
  proof (cases s)
    case Nil
    with s1 Cons.prems show ?thesis by (simp add: bytewise_def)
  next
    case (Cons d s')
    have "p_mode ?p1 = Start" using Cons.prems by simp
    from Cons.IH [OF this] obtain p' where
      "feeds (HTTPParser_feed ssl hb) ?p1 (bytewise s) = Some (Inr (p', []))"
      "p_mode p' = Start" "header p' = header ?p1" by blast
    with s1 Cons show ?thesis by (simp add: bytewise_def)
  qed
qed

text \<open>
  Claim C1 (chunk-boundary independence) at the request \<open>GET / HTTP/1.1\<close> with one
  \<open>Host\<close> field: fed whole, the parser ends in \<open>End\<close> with the field parsed; fed one
  byte per call, it is still in \<open>Start\<close> with no field, since \<open>feed_line\<close> looks for
  the CRLF in the text of the call only.
\<close>

theorem bytewise_differs:
  "map_option p_mode (returned_parser
      (feeds RequestParser_feed (RequestParser empty_buffer) [get_request])) = Some End
   \<and> map_option header_fields (returned_parser
      (feeds RequestParser_feed (RequestParser empty_buffer) [get_request])) = Some [(''Host'', ''a'')]
   \<and> map_option p_mode (returned_parser
      (feeds RequestParser_feed (RequestParser empty_buffer) (bytewise get_request))) = Some Start
   \<and> map_option header_fields (returned_parser
      (feeds RequestParser_feed (RequestParser empty_buffer) (bytewise get_request))) = Some []"
  by code_simp

section \<open>Chunked bodies\<close>



text \<open>\<open>split\<close> gives at least one part, so \<open>[0]\<close> on its result is defined.\<close>

lemma py_split_nonempty: "py_split sep n s \<noteq> []"
  by (cases n) auto

text \<open>
  A negative chunk size (\<open>int\<close> accepts a sign) with text after the size line: no
  round consumes anything and the loop never returns.
\<close>

lemma chunk_round_stuck:
  "r < 0 \<Longrightarrow> t \<noteq> [] \<Longrightarrow> chunk_round CChunk r p t = Inr (CChunk, r, p, t)"
  by (simp add: chunk_round_def chunk_size_part_def chunk_data_part_def chunk_trailer_part_def)

lemma ChunkReader_loop_negative_aux:
  assumes "ChunkReader_loop cm r p t = Some y"
  shows "\<not> (cm = CChunk \<and> r < 0 \<and> t \<noteq> [])"
  using assms
proof (induction cm r p t y
    rule: ChunkReader_loop.raw_induct [rotated 1, consumes 1, case_names round])
  case (round loop cm r p t y)
  show ?case
  proof
    assume s: "cm = CChunk \<and> r < 0 \<and> t \<noteq> []"
    with round.hyps chunk_round_stuck [of r t p] have "loop CChunk r p t = Some y" by simp
    from round.IH [OF this] s show False by simp
  qed
qed

lemma ChunkReader_loop_negative_size:
  "r < 0 \<Longrightarrow> t \<noteq> [] \<Longrightarrow> ChunkReader_loop CChunk r p t = None"
  using ChunkReader_loop_negative_aux [of CChunk r p t] by (cases "ChunkReader_loop CChunk r p t") auto

lemma py_take_length [simp]: "py_take (int (length xs)) (xs @ ys) = xs"
  by (simp add: py_take_def)

lemma py_drop_length [simp]: "py_drop (int (length xs)) (xs @ ys) = ys"
  by (simp add: py_drop_def)

lemma write_str_contents:
  "s \<noteq> [] \<Longrightarrow> drop (pos b) (contents (write_str b s)) = s @ drop (pos b + length s) (contents b)"
  by (simp add: write_str_def Let_def)

lemma write_str_pos: "pos (write_str b s) = pos b + length s"
  by (simp add: write_str_def Let_def)

lemma readline_nonempty:
  assumes "drop (pos b) (contents b) \<noteq> []"
  shows "fst (readline b) \<noteq> []"
proof (cases "LF \<in> set (drop (pos b) (contents b))")
  case True
  with assms show ?thesis by (simp add: readline_def Let_def)
next
  case False
  with assms show ?thesis by (simp add: readline_def Let_def)
qed

lemma feed_line_found_nonempty:
  assumes "find_crlf t = Some nl" and "offset p = pos (buffer p)"
  shows "\<exists>line p1. feed_line p t = (Some line, p1, drop (nl + 2) t) \<and> line \<noteq> []"
proof -
  let ?s = "take (nl + 2) t"
  let ?b = "seek (write_str (buffer p) ?s) (offset p)"
  from find_crlf_bound [OF assms(1)] have s: "?s \<noteq> []" by auto
  have "drop (pos ?b) (contents ?b) \<noteq> []"
    using write_str_contents [OF s, of "buffer p"] assms(2) s by (simp add: seek_def)
  from readline_nonempty [OF this] have "fst (readline ?b) \<noteq> []" .
  with assms(1) show ?thesis
    by (auto simp: feed_line_def Let_def split: prod.splits)
qed

text \<open>
  Claim C10. In mode \<open>'chunk'\<close> with as many bytes remaining as the data at the head
  of the text, one round of the reader consumes the data and then everything up to
  and through the first CRLF of what follows, whatever comes before that CRLF; it
  raises nothing, and the reader is back in mode \<open>'start'\<close> with the rest of the text.
\<close>

theorem chunk_terminator_unchecked:
  assumes "data \<noteq> []" and "find_crlf tail = Some nl"
  shows "\<exists>p1. chunk_round CChunk (int (length data)) p (data @ tail)
                = Inr (CStart, 0, p1, drop (nl + 2) tail)
              \<and> ChunkReader_loop CChunk (int (length data)) p (data @ tail)
                = ChunkReader_loop CStart 0 p1 (drop (nl + 2) tail)"
proof -
  let ?p0 = "p\<lparr>buffer := write_str (buffer p) data, offset := tell (write_str (buffer p) data)\<rparr>"
  have fl: "feed_length p (data @ tail) (int (length data)) = (0, ?p0, tail)"
    by (simp add: feed_length_def Let_def)
  have "offset ?p0 = pos (buffer ?p0)" by (simp add: tell_def)
  from feed_line_found_nonempty [OF assms(2) this]
  obtain line p1 where l: "feed_line ?p0 tail = (Some line, p1, drop (nl + 2) tail)" "line \<noteq> []"
    by blast
  have d: "chunk_data_part CChunk (int (length data)) p (data @ tail)
             = (CStart, 0, p1, drop (nl + 2) tail)"
    using assms(1) fl l by (simp add: chunk_data_part_def)
  have r: "chunk_round CChunk (int (length data)) p (data @ tail)
             = Inr (CStart, 0, p1, drop (nl + 2) tail)"
    by (simp add: chunk_round_def chunk_size_part_def d chunk_trailer_part_def)
  have "ChunkReader_loop CChunk (int (length data)) p (data @ tail)
                = ChunkReader_loop CStart 0 p1 (drop (nl + 2) tail)"
    using assms(1) by (subst ChunkReader_loop.simps) (simp add: r)
  with r show ?thesis by blast
qed

theorem chunk_terminator_unchecked_witness:
  "''Wiki'' \<noteq> [] \<and> find_crlf (''junk'' @ CRLF @ ''0'' @ CRLF @ CRLF) = Some 4
   \<and> (\<exists>p1. chunk_round CChunk (int (length ''Wiki'')) (RequestParser empty_buffer)
               (''Wiki'' @ ''junk'' @ CRLF @ ''0'' @ CRLF @ CRLF)
             = Inr (CStart, 0, p1, drop (4 + 2) (''junk'' @ CRLF @ ''0'' @ CRLF @ CRLF))
           \<and> ChunkReader_loop CChunk (int (length ''Wiki'')) (RequestParser empty_buffer)
               (''Wiki'' @ ''junk'' @ CRLF @ ''0'' @ CRLF @ CRLF)
             = ChunkReader_loop CStart 0 p1 (drop (4 + 2) (''junk'' @ CRLF @ ''0'' @ CRLF @ CRLF)))"
proof -
  have a: "''Wiki'' \<noteq> []" by simp
  have b: "find_crlf (''junk'' @ CRLF @ ''0'' @ CRLF @ CRLF) = Some 4" by code_simp
  from chunk_terminator_unchecked [OF a b, of "RequestParser empty_buffer"] a b
  show ?thesis by blast
qed

section \<open>The leftover of feed\<close>

lemma feed_line_keeps:
  "feed_line p t = (line, p1, t1) \<Longrightarrow>
     p_mode p1 = p_mode p \<and> header p1 = header p \<and> body_reader p1 = body_reader p
     \<and> body_offset p1 = body_offset p \<and> http_parser.more p1 = http_parser.more p"
  by (auto simp: feed_line_def Let_def split: option.splits prod.splits)

lemma feed_line_none: "feed_line p t = (None, p1, t1) \<Longrightarrow> t1 = []"
  by (auto simp: feed_line_def Let_def split: option.splits prod.splits)

lemma feed_length_keeps:
  "feed_length p t r = (r1, p1, t1) \<Longrightarrow>
     p_mode p1 = p_mode p \<and> header p1 = header p \<and> body_reader p1 = body_reader p
     \<and> body_offset p1 = body_offset p \<and> http_parser.more p1 = http_parser.more p"
  by (auto simp: feed_length_def Let_def)













text \<open>A blank line before the request: one blank line is skipped, the request comes
  back as leftover with the parser still in \<open>Start\<close>.\<close>

lemma leading_blank_line_leftover:
  "returned_rest (RequestParser_feed (RequestParser empty_buffer) (CRLF @ get_request)) = Some get_request
   \<and> map_option complete (returned_parser (RequestParser_feed (RequestParser empty_buffer) (CRLF @ get_request)))
       = Some False
   \<and> get_request \<noteq> []"
  by code_simp

section \<open>Interim responses\<close>

text \<open>
  What \<open>HTTPParser.feed\<close> leaves alone in a response parser: the request its header
  refers to, and the fields of the subclass (the list \<open>interim\<close>).
\<close>

lemma interim_from_more:
  "http_parser.more p' = http_parser.more (p :: response_parser) \<Longrightarrow> interim p' = interim p"
  by (cases p, cases p') simp

lemma request_base_updates [simp]:
  "request (headers_update f1 (h :: response_header)) = request h"
  "request (keep_alive_update f2 h) = request h"
  "request (h_mode_update f3 h) = request h"
  "request (content_length_update f4 h) = request h"
  "request (encoding_update f5 h) = request h"
  "request (trailers_update f6 h) = request h"
  by (cases h, simp)+

lemma scan_field_request:
  "scan_field nv (h :: response_header) = Inr h' \<Longrightarrow> request h' = request h"
  by (auto simp: scan_field_def Let_def split: if_splits sum.splits)

lemma scan_fields_request:
  "scan_fields fs (h :: response_header) = Inr h' \<Longrightarrow> request h' = request h"
proof (induction fs arbitrary: h)
  case Nil
  then show ?case by simp
next
  case (Cons nv fs)
  then obtain h1 where "scan_field nv h = Inr h1" "scan_fields fs h1 = Inr h'"
    by (auto split: sum.splits)
  with Cons.IH [of h1] scan_field_request [of nv h h1] show ?case by simp
qed

lemma add_header_request:
  "add_header (h :: response_header) l = Inr h' \<Longrightarrow> request h' = request h"
  by (auto simp: add_header_def split: if_splits sum.splits prod.splits list.splits
      dest: scan_fields_request)

lemma add_trailer_request:
  "add_trailer (h :: response_header) l = Inr h' \<Longrightarrow> request h' = request h"
  by (auto simp: add_trailer_def split: if_splits sum.splits prod.splits list.splits)

lemma set_start_line_request:
  "ResponseHeader_set_start_line h l = Inr h' \<Longrightarrow> request h' = request h"
  by (auto simp: ResponseHeader_set_start_line_def Let_def split: if_splits sum.splits list.splits)


lemma feed_start_kept:
  "feed_start ResponseHeader_set_start_line p t = Inr (p1, t1) \<Longrightarrow>
     request (header p1) = request (header p) \<and> http_parser.more p1 = http_parser.more p"
  by (auto simp: feed_start_def split: prod.splits option.splits if_splits sum.splits
      dest!: feed_line_keeps set_start_line_request)

lemma feed_headers_kept:
  "feed_headers p t = Inr (p1, t1) \<Longrightarrow>
     request (header p1) = request (header (p :: (response_header, 'z) http_parser_scheme))
     \<and> http_parser.more p1 = http_parser.more p"
proof (induction p t rule: feed_headers.induct)
  case (1 p t)
  show ?case
  proof (cases "t = []")
    case True
    with "1.prems" show ?thesis by simp
  next
    case False
    obtain line p0 t0 where fl: "feed_line p t = (line, p0, t0)" by (cases "feed_line p t") auto
    note k = feed_line_keeps [OF fl]
    show ?thesis
    proof (cases line)
      case None
      with "1.prems" False fl have "feed_headers p0 t0 = Inr (p1, t1)" by simp
      from "1.IH"(1) [OF False fl [symmetric] _ _ this] None k show ?thesis by simp
    next
      case (Some l)
      with "1.prems" False fl obtain h where h: "add_header (header p0) l = Inr h"
        and r: "(if l = CRLF then Inr (p0\<lparr>header := h, p_mode := Body\<rparr>, t0)
                 else feed_headers (p0\<lparr>header := h\<rparr>) t0) = Inr (p1, t1)"
        by (auto split: sum.splits)
      note hr = add_header_request [OF h]
      show ?thesis
      proof (cases "l = CRLF")
        case True
        with r hr k show ?thesis by auto
      next
        case False2: False
        with r have "feed_headers (p0\<lparr>header := h\<rparr>) t0 = Inr (p1, t1)" by simp
        from "1.IH"(2) [OF False fl [symmetric] _ _ h False2 this] Some k hr show ?thesis by simp
      qed
    qed
  qed
qed

lemma enter_body_kept:
  "header (enter_body hb p) = header p \<and> http_parser.more (enter_body hb p) = http_parser.more p"
  by (simp add: enter_body_def)

lemma chunk_round_kept:
  assumes "chunk_round cm r p t = Inr (cm1, r1, p1, t1)"
  shows "request (header p1) = request (header (p :: (response_header, 'z) http_parser_scheme))
     \<and> http_parser.more p1 = http_parser.more p"
proof -
  from assms obtain cma ra pa ta cmb rb pb tb where
    a: "chunk_size_part cm r p t = Inr (cma, ra, pa, ta)" and
    b: "chunk_data_part cma ra pa ta = (cmb, rb, pb, tb)" and
    c: "chunk_trailer_part cmb rb pb tb = Inr (cm1, r1, p1, t1)"
    by (auto simp: chunk_round_def split: sum.splits prod.splits)
  from a have ka: "header pa = header p \<and> http_parser.more pa = http_parser.more p"
    by (auto simp: chunk_size_part_def split: if_splits prod.splits option.splits sum.splits
        dest!: feed_line_keeps)
  from b have kb: "header pb = header pa \<and> http_parser.more pb = http_parser.more pa"
    by (auto simp: chunk_data_part_def Let_def split: if_splits prod.splits
        dest!: feed_line_keeps feed_length_keeps)
  from c have kc: "request (header p1) = request (header pb) \<and> http_parser.more p1 = http_parser.more pb"
    by (auto simp: chunk_trailer_part_def split: if_splits prod.splits option.splits sum.splits
        dest!: feed_line_keeps add_trailer_request)
  from ka kb kc show ?thesis by simp
qed

lemma ChunkReader_loop_kept_aux:
  assumes "ChunkReader_loop cm r p t = Some y"
  shows "\<forall>cm1 r1 p1 t1. y = Inr (cm1, r1, p1, t1) \<longrightarrow>
           request (header p1) = request (header (p :: (response_header, 'z) http_parser_scheme))
           \<and> http_parser.more p1 = http_parser.more p"
  using assms
proof (induction cm r p t y
    rule: ChunkReader_loop.raw_induct [rotated 1, consumes 1, case_names round])
  case (round loop cm r p t y)
  show ?case
  proof (cases "t = []")
    case True
    with round.hyps show ?thesis by auto
  next
    case False
    show ?thesis
    proof (cases "chunk_round cm r p t")
      case (Inl e)
      with False round.hyps show ?thesis by auto
    next
      case (Inr x)
      obtain cm0 r0 p0 t0 where x: "x = (cm0, r0, p0, t0)" by (cases x) auto
      note k = chunk_round_kept [OF Inr [unfolded x]]
      show ?thesis
      proof (cases "cm0 = CEnd")
        case True
        with False Inr x round.hyps k show ?thesis by auto
      next
        case F: False
        with False Inr x round.hyps have "loop cm0 r0 p0 t0 = Some y" by simp
        from round.IH [OF this] k show ?thesis by simp
      qed
    qed
  qed
qed

lemma feed_body_block_kept:
  assumes "feed_body_block p t = Some (Inr (p1, t1))"
  shows "request (header p1) = request (header (p :: (response_header, 'z) http_parser_scheme))
     \<and> http_parser.more p1 = http_parser.more p"
proof (cases "t \<noteq> [] \<and> p_mode p = Body")
  case False
  with assms show ?thesis by (auto simp: feed_body_block_def)
next
  case True
  show ?thesis
  proof (cases "body_reader p")
    case None
    with True assms show ?thesis by (auto simp: feed_body_block_def)
  next
    case (Some rd)
    show ?thesis
    proof (cases rd)
      case (ChunkReader cm r)
      with True Some assms have "ChunkReader_feed cm r p t = Some (Inr (p1, t1))"
        by (simp add: feed_body_block_def)
      then obtain cm1 r1 p0 where l: "ChunkReader_loop cm r p t = Some (Inr (cm1, r1, p0, t1))"
        and p1: "p1 = p0\<lparr>body_reader := Some (ChunkReader cm1 r1)\<rparr>"
        by (auto simp: ChunkReader_feed_def split: option.splits sum.splits)
      from ChunkReader_loop_kept_aux [OF l] p1 show ?thesis by simp
    next
      case (LengthReader r)
      with True Some assms have "LengthReader_feed r p t = (p1, t1)"
        by (simp add: feed_body_block_def)
      then show ?thesis
        by (auto simp: LengthReader_feed_def Let_def split: if_splits prod.splits
            dest!: feed_length_keeps)
    qed
  qed
qed

lemma HTTPParser_feed_kept:
  assumes "HTTPParser_feed ResponseHeader_set_start_line hb p t = Some (Inr (p', rest))"
  shows "request (header p') = request (header (p :: (response_header, 'z) http_parser_scheme))
     \<and> http_parser.more p' = http_parser.more p"
proof -
  from assms obtain p1 t1 p2 t2 where
    s1: "feed_start_block ResponseHeader_set_start_line p t = Inr (p1, t1)" and
    s2: "feed_headers_block hb p1 t1 = Inr (p2, t2)" and
    s3: "feed_body_block p2 t2 = Some (Inr (p', rest))"
    by (auto simp: HTTPParser_feed_def split: sum.splits)
  from s1 have k1: "request (header p1) = request (header p) \<and> http_parser.more p1 = http_parser.more p"
    by (auto simp: feed_start_block_def split: if_splits dest!: feed_start_kept)
  from s2 have k2: "request (header p2) = request (header p1) \<and> http_parser.more p2 = http_parser.more p1"
    by (auto simp: feed_headers_block_def enter_body_kept simp del: feed_headers.simps
        split: if_splits sum.splits dest!: feed_headers_kept)
  from feed_body_block_kept [OF s3] k1 k2 show ?thesis by simp
qed

lemma HTTPParser_feed_done:
  "p_mode p = End \<or> p_mode p = Incomplete \<or> t = [] \<Longrightarrow> HTTPParser_feed ssl hb p t = Some (Inr (p, t))"
  by (auto simp: HTTPParser_feed_def feed_start_block_def feed_headers_block_def feed_body_block_def)

lemma absorb_interim_fields:
  "interim (absorb_interim p) = interim p @ [header p]"
  "header (absorb_interim p) = new_response_header (request (header p))"
  "p_mode (absorb_interim p) = Start"
  "body_reader (absorb_interim p) = None"
  "body_offset (absorb_interim p) = - 1"
  by (simp_all add: absorb_interim_def)

lemma request_new_response_header: "request (new_response_header r) = r"
  by (simp add: new_response_header_def)

lemma absorb_step:
  "HTTPParser_feed ResponseHeader_set_start_line (ResponseHeader_has_body sem) p t
        = Some (Inr (p1, t1))
      \<and> complete p1 \<and> code (header p1) = Some (codes_Continue sem)
    \<longrightarrow> ResponseParser_feed sem p t
          = HTTPParser_feed ResponseHeader_set_start_line (ResponseHeader_has_body sem)
              (absorb_interim p1) t1
        \<and> interim (absorb_interim p1) = interim p @ [header p1]
        \<and> header (absorb_interim p1) = new_response_header (request (header p))
        \<and> p_mode (absorb_interim p1) = Start
        \<and> body_reader (absorb_interim p1) = None
        \<and> body_offset (absorb_interim p1) = - 1
        \<and> (\<forall>p2 t2. ResponseParser_feed sem p t = Some (Inr (p2, t2))
              \<longrightarrow> interim p2 = interim p @ [header p1]
                  \<and> request (header p2) = request (header p))"
proof
  let ?F = "HTTPParser_feed ResponseHeader_set_start_line (ResponseHeader_has_body sem)"
  assume a: "?F p t = Some (Inr (p1, t1))
      \<and> complete p1 \<and> code (header p1) = Some (codes_Continue sem)"
  then have f: "?F p t = Some (Inr (p1, t1))" by (rule conjunct1)
  from HTTPParser_feed_kept [OF f]
  have k1: "request (header p1) = request (header p)"
    and k2: "http_parser.more p1 = http_parser.more p" by (rule conjunct1, rule conjunct2)
  from interim_from_more [OF k2] have i1: "interim p1 = interim p" .
  from a f have r: "ResponseParser_feed sem p t = ?F (absorb_interim p1) t1"
    by (simp add: ResponseParser_feed_def)
  have c2: "interim (absorb_interim p1) = interim p @ [header p1]"
    by (simp only: absorb_interim_fields i1)
  have c3: "header (absorb_interim p1) = new_response_header (request (header p))"
    by (simp only: absorb_interim_fields k1)
  have c7: "\<forall>p2 t2. ResponseParser_feed sem p t = Some (Inr (p2, t2))
              \<longrightarrow> interim p2 = interim p @ [header p1]
                  \<and> request (header p2) = request (header p)"
  proof (intro allI impI)
    fix p2 t2
    assume "ResponseParser_feed sem p t = Some (Inr (p2, t2))"
    with r have "?F (absorb_interim p1) t1 = Some (Inr (p2, t2))" by simp
    from HTTPParser_feed_kept [OF this]
    have m1: "request (header p2) = request (header (absorb_interim p1))"
      and m2: "http_parser.more p2 = http_parser.more (absorb_interim p1)"
      by (rule conjunct1, rule conjunct2)
    from interim_from_more [OF m2] c2 have "interim p2 = interim p @ [header p1]" by simp
    moreover from m1 c3 have "request (header p2) = request (header p)"
      by (simp only: request_new_response_header)
    ultimately show "interim p2 = interim p @ [header p1] \<and> request (header p2) = request (header p)"
      by (rule conjI)
  qed
  from r c2 c3 c7 absorb_interim_fields(3-5) [of p1]
  show "ResponseParser_feed sem p t = ?F (absorb_interim p1) t1
        \<and> interim (absorb_interim p1) = interim p @ [header p1]
        \<and> header (absorb_interim p1) = new_response_header (request (header p))
        \<and> p_mode (absorb_interim p1) = Start
        \<and> body_reader (absorb_interim p1) = None
        \<and> body_offset (absorb_interim p1) = - 1
        \<and> (\<forall>p2 t2. ResponseParser_feed sem p t = Some (Inr (p2, t2))
              \<longrightarrow> interim p2 = interim p @ [header p1]
                  \<and> request (header p2) = request (header p))"
    by (intro conjI)
qed

lemma no_absorb_step:
  "HTTPParser_feed ResponseHeader_set_start_line (ResponseHeader_has_body sem) p t
        = Some (Inr (p1, t1))
      \<and> \<not> (complete p1 \<and> code (header p1) = Some (codes_Continue sem))
    \<longrightarrow> ResponseParser_feed sem p t = Some (Inr (p1, t1)) \<and> interim p1 = interim p"
proof
  let ?F = "HTTPParser_feed ResponseHeader_set_start_line (ResponseHeader_has_body sem)"
  assume a: "?F p t = Some (Inr (p1, t1))
      \<and> \<not> (complete p1 \<and> code (header p1) = Some (codes_Continue sem))"
  then have f: "?F p t = Some (Inr (p1, t1))" by (rule conjunct1)
  from HTTPParser_feed_kept [OF f] have "http_parser.more p1 = http_parser.more p"
    by (rule conjunct2)
  from interim_from_more [OF this] have "interim p1 = interim p" .
  moreover from a f have "ResponseParser_feed sem p t = Some (Inr (p1, t1))"
    by (auto simp: ResponseParser_feed_def)
  ultimately show "ResponseParser_feed sem p t = Some (Inr (p1, t1)) \<and> interim p1 = interim p"
    by simp
qed

lemma absorb_on_next_call:
  "complete q \<and> code (header q) = Some (codes_Continue sem)
    \<longrightarrow> ResponseParser_feed sem q u
          = HTTPParser_feed ResponseHeader_set_start_line (ResponseHeader_has_body sem)
              (absorb_interim q) u"
proof
  let ?F = "HTTPParser_feed ResponseHeader_set_start_line (ResponseHeader_has_body sem)"
  assume a: "complete q \<and> code (header q) = Some (codes_Continue sem)"
  then have "p_mode q = End" by (simp add: complete_def)
  then have "?F q u = Some (Inr (q, u))" by (simp add: HTTPParser_feed_done)
  with a show "ResponseParser_feed sem q u = ?F (absorb_interim q) u"
    by (simp add: ResponseParser_feed_def)
qed

text \<open>
  What \<open>ResponseParser.feed\<close> does with a completed interim response. When the
  inherited \<open>feed\<close> returns with the parser in \<open>End\<close> and the status code
  \<open>Codes.Continue\<close>, that header is appended to \<open>interim\<close>, a new
  \<open>ResponseHeader\<close> of the same request takes its place, the mode is \<open>Start\<close>,
  the body offset \<open>-1\<close> and the body reader none, and the leftover is fed once more
  with the inherited \<open>feed\<close>; when that call returns, \<open>interim\<close> is one header
  longer than before and the request is the same. Otherwise the parser and leftover
  of the inherited \<open>feed\<close> are the result and \<open>interim\<close> is unchanged. A parser
  left in \<open>End\<close> with the code \<open>Continue\<close> is absorbed by the next call, before
  any of its text is parsed.
\<close>

theorem interim_absorbed_once:
  "(HTTPParser_feed ResponseHeader_set_start_line (ResponseHeader_has_body sem) p t
        = Some (Inr (p1, t1))
      \<and> complete p1 \<and> code (header p1) = Some (codes_Continue sem)
    \<longrightarrow> ResponseParser_feed sem p t
          = HTTPParser_feed ResponseHeader_set_start_line (ResponseHeader_has_body sem)
              (absorb_interim p1) t1
        \<and> interim (absorb_interim p1) = interim p @ [header p1]
        \<and> header (absorb_interim p1) = new_response_header (request (header p))
        \<and> p_mode (absorb_interim p1) = Start
        \<and> body_reader (absorb_interim p1) = None
        \<and> body_offset (absorb_interim p1) = - 1
        \<and> (\<forall>p2 t2. ResponseParser_feed sem p t = Some (Inr (p2, t2))
              \<longrightarrow> interim p2 = interim p @ [header p1]
                  \<and> request (header p2) = request (header p)))
   \<and> (HTTPParser_feed ResponseHeader_set_start_line (ResponseHeader_has_body sem) p t
        = Some (Inr (p1, t1))
      \<and> \<not> (complete p1 \<and> code (header p1) = Some (codes_Continue sem))
    \<longrightarrow> ResponseParser_feed sem p t = Some (Inr (p1, t1)) \<and> interim p1 = interim p)
   \<and> (complete q \<and> code (header q) = Some (codes_Continue sem)
    \<longrightarrow> ResponseParser_feed sem q u
          = HTTPParser_feed ResponseHeader_set_start_line (ResponseHeader_has_body sem)
              (absorb_interim q) u)"
  by (rule conjI [OF absorb_step conjI [OF no_absorb_step absorb_on_next_call]])

theorem interim_absorbed_once_witness:
  "(\<exists>p1. HTTPParser_feed ResponseHeader_set_start_line (ResponseHeader_has_body example_semantics)
            (ResponseParser empty_buffer get_header) (continue_response @ ok_response)
          = Some (Inr (p1, ok_response))
        \<and> complete p1 \<and> code (header p1) = Some (codes_Continue example_semantics)
        \<and> ResponseParser_feed example_semantics (ResponseParser empty_buffer get_header)
            (continue_response @ ok_response)
          = HTTPParser_feed ResponseHeader_set_start_line (ResponseHeader_has_body example_semantics)
              (absorb_interim p1) ok_response
        \<and> interim (absorb_interim p1) = interim (ResponseParser empty_buffer get_header) @ [header p1])
   \<and> (\<exists>p1. HTTPParser_feed ResponseHeader_set_start_line (ResponseHeader_has_body example_semantics)
            (ResponseParser empty_buffer get_header) ok_response
          = Some (Inr (p1, []))
        \<and> \<not> (complete p1 \<and> code (header p1) = Some (codes_Continue example_semantics))
        \<and> ResponseParser_feed example_semantics (ResponseParser empty_buffer get_header) ok_response
          = Some (Inr (p1, [])))
   \<and> (complete ((ResponseParser empty_buffer get_header)
          \<lparr>header := (new_response_header get_header)\<lparr>code := Some 100\<rparr>, p_mode := End\<rparr>)
        \<and> ResponseParser_feed example_semantics
            ((ResponseParser empty_buffer get_header)
               \<lparr>header := (new_response_header get_header)\<lparr>code := Some 100\<rparr>, p_mode := End\<rparr>)
            ok_response
          = HTTPParser_feed ResponseHeader_set_start_line (ResponseHeader_has_body example_semantics)
              (absorb_interim ((ResponseParser empty_buffer get_header)
                 \<lparr>header := (new_response_header get_header)\<lparr>code := Some 100\<rparr>, p_mode := End\<rparr>))
              ok_response)"
proof -
  let ?F = "HTTPParser_feed ResponseHeader_set_start_line (ResponseHeader_has_body example_semantics)"
  let ?P = "ResponseParser empty_buffer get_header"
  let ?Q = "?P\<lparr>header := (new_response_header get_header)\<lparr>code := Some 100\<rparr>, p_mode := End\<rparr>"
  have "(case ?F ?P (continue_response @ ok_response) of
           Some (Inr (p1, t1)) \<Rightarrow>
             complete p1 \<and> code (header p1) = Some (codes_Continue example_semantics)
             \<and> t1 = ok_response
         | _ \<Rightarrow> False)"
    by code_simp
  then obtain p1 where a: "?F ?P (continue_response @ ok_response) = Some (Inr (p1, ok_response))"
    "complete p1" "code (header p1) = Some (codes_Continue example_semantics)"
    by (auto split: option.splits sum.splits)
  have "(case ?F ?P ok_response of
           Some (Inr (p1, t1)) \<Rightarrow>
             \<not> (complete p1 \<and> code (header p1) = Some (codes_Continue example_semantics))
             \<and> t1 = []
         | _ \<Rightarrow> False)"
    by code_simp
  then obtain p1' where b: "?F ?P ok_response = Some (Inr (p1', []))"
    "\<not> (complete p1' \<and> code (header p1') = Some (codes_Continue example_semantics))"
    by (auto split: option.splits sum.splits)
  have c: "complete ?Q \<and> code (header ?Q) = Some (codes_Continue example_semantics)"
    by (simp add: complete_def example_semantics_def)
  from interim_absorbed_once [of example_semantics ?P "continue_response @ ok_response" p1
      ok_response] a
  have A: "ResponseParser_feed example_semantics ?P (continue_response @ ok_response)
          = ?F (absorb_interim p1) ok_response
        \<and> interim (absorb_interim p1) = interim ?P @ [header p1]" by blast
  from interim_absorbed_once [of example_semantics ?P ok_response p1' "[]"] b
  have B: "ResponseParser_feed example_semantics ?P ok_response = Some (Inr (p1', []))" by blast
  from interim_absorbed_once [of example_semantics _ _ _ _ ?Q ok_response] c
  have C: "ResponseParser_feed example_semantics ?Q ok_response = ?F (absorb_interim ?Q) ok_response"
    by blast
  from a A b B c C show ?thesis by blast
qed

text \<open>
  Claim C4 at two interim responses and the final response in a single call. The
  first interim header is archived and the leftover is fed again; the second
  interim response is parsed by that call and stays the current header, with the
  parser in \<open>End\<close>, one header in \<open>interim\<close>, and the final response handed
  back as leftover: the check for an interim response is made once per call.
\<close>

theorem interim_chain_stops_after_one:
  "map_option interim_codes (returned_parser
      (ResponseParser_feed example_semantics (ResponseParser empty_buffer get_header)
         (continue_response @ continue_response @ ok_response))) = Some [Some 100]
   \<and> map_option current_code (returned_parser
      (ResponseParser_feed example_semantics (ResponseParser empty_buffer get_header)
         (continue_response @ continue_response @ ok_response))) = Some (Some 100)
   \<and> map_option p_mode (returned_parser
      (ResponseParser_feed example_semantics (ResponseParser empty_buffer get_header)
         (continue_response @ continue_response @ ok_response))) = Some End
   \<and> returned_rest
      (ResponseParser_feed example_semantics (ResponseParser empty_buffer get_header)
         (continue_response @ continue_response @ ok_response)) = Some ok_response"
  by code_simp

section \<open>feed on a complete parser\<close>

text \<open>
  On a complete request parser \<open>feed("")\<close> returns the empty string and leaves the
  parser as it is; so it does on a complete response parser whose status code is not
  \<open>Codes.Continue\<close>.
\<close>

theorem feed_empty_when_complete:
  "(complete p \<longrightarrow> RequestParser_feed p [] = Some (Inr (p, [])))
   \<and> (complete q \<and> code (header q) \<noteq> Some (codes_Continue sem)
      \<longrightarrow> ResponseParser_feed sem q [] = Some (Inr (q, [])))"
  by (simp add: RequestParser_feed_def ResponseParser_feed_def HTTPParser_feed_done)

theorem feed_empty_when_complete_witness:
  "complete (close (RequestParser empty_buffer))
   \<and> RequestParser_feed (close (RequestParser empty_buffer)) []
       = Some (Inr (close (RequestParser empty_buffer), []))
   \<and> complete (close (ResponseParser empty_buffer get_header))
   \<and> code (header (close (ResponseParser empty_buffer get_header)))
       \<noteq> Some (codes_Continue example_semantics)
   \<and> ResponseParser_feed example_semantics (close (ResponseParser empty_buffer get_header)) []
       = Some (Inr (close (ResponseParser empty_buffer get_header), []))"
proof -
  have a: "complete (close (RequestParser empty_buffer))"
    by (simp add: complete_def close_def RequestParser_def)
  have b: "complete (close (ResponseParser empty_buffer get_header))
     \<and> code (header (close (ResponseParser empty_buffer get_header)))
       \<noteq> Some (codes_Continue example_semantics)"
    by (simp add: complete_def close_def ResponseParser_def new_response_header_def)
  from feed_empty_when_complete [of "close (RequestParser empty_buffer)"
      "close (ResponseParser empty_buffer get_header)" example_semantics] a b
  show ?thesis by blast
qed

text \<open>
  Claim C8 (a further \<open>feed("")\<close> on a complete parser changes nothing) at the
  response parser that one call with two interim responses and the final response
  leaves behind: it is complete with one header in \<open>interim\<close>; \<open>feed("")\<close> then
  archives the second interim header and resets the parser to \<open>Start\<close>, so that
  \<open>complete()\<close> is false.
\<close>

theorem feed_empty_resets_after_interim:
  "map_option complete (returned_parser
      (feeds (ResponseParser_feed example_semantics) (ResponseParser empty_buffer get_header)
         [continue_response @ continue_response @ ok_response])) = Some True
   \<and> map_option complete (returned_parser
      (feeds (ResponseParser_feed example_semantics) (ResponseParser empty_buffer get_header)
         [continue_response @ continue_response @ ok_response, []])) = Some False
   \<and> map_option interim_codes (returned_parser
      (feeds (ResponseParser_feed example_semantics) (ResponseParser empty_buffer get_header)
         [continue_response @ continue_response @ ok_response])) = Some [Some 100]
   \<and> map_option interim_codes (returned_parser
      (feeds (ResponseParser_feed example_semantics) (ResponseParser empty_buffer get_header)
         [continue_response @ continue_response @ ok_response, []])) = Some [Some 100, Some 100]"
  by code_simp

section \<open>Structural parse failures\<close>

lemma in_set_dropWhile: "c \<in> set s \<Longrightarrow> P c \<or> c \<in> set (dropWhile P s)"
  by (induction s) auto

lemma in_set_py_strip: "c \<in> set s \<Longrightarrow> isspace c \<or> c \<in> set (py_strip s)"
proof -
  assume c: "c \<in> set s"
  from in_set_dropWhile [OF c, of isspace]
  have 1: "isspace c \<or> c \<in> set (py_lstrip s)" by (simp add: py_lstrip_def)
  {
    assume "c \<in> set (py_lstrip s)"
    then have "c \<in> set (rev (py_lstrip s))" by simp
    from in_set_dropWhile [OF this, of isspace]
    have "isspace c \<or> c \<in> set (py_strip s)" by (simp add: py_strip_def py_rstrip_def)
  }
  with 1 show ?thesis by blast
qed

lemma in_set_strip_sign:
  "strip_sign s = (neg, s2) \<Longrightarrow> c \<in> set s \<Longrightarrow>
     c = CHR ''-'' \<or> c = CHR ''+'' \<or> isspace c \<or> c \<in> set s2"
  by (cases s) (auto simp: strip_sign_def py_lstrip_def split: if_splits dest: in_set_dropWhile [of _ _ isspace])

lemma hex_digit_0: "hex_digit (CHR ''0'')"
  by (simp add: hex_digit_def digit_val_def)

lemma in_set_strip_0x:
  "c \<in> set s \<Longrightarrow> c = CHR ''0'' \<or> c = CHR ''x'' \<or> c = CHR ''X'' \<or> c \<in> set (strip_0x b s)"
  by (auto simp: strip_0x_def split: list.splits if_splits)

lemma digits_val_hex:
  "digits_val 16 acc s = Some n \<Longrightarrow> c \<in> set s \<Longrightarrow> hex_digit c"
proof (induction s arbitrary: acc)
  case Nil
  then show ?case by simp
next
  case (Cons a s)
  from Cons.prems(1) obtain d where d: "digit_val a = Some d" "d < 16"
    and r: "digits_val 16 (acc * 16 + d) s = Some n"
    by (auto split: option.splits if_splits)
  show ?case
  proof (cases "c = a")
    case True
    with d show ?thesis by (simp add: hex_digit_def)
  next
    case False
    with Cons.prems(2) have "c \<in> set s" by simp
    from Cons.IH [OF r this] show ?thesis .
  qed
qed

lemma py_int_error: "py_int b s = Inl e \<Longrightarrow> e = ValueError"
  by (auto simp: py_int_def Let_def split: prod.splits if_splits option.splits)

lemma py_int_16_chars:
  assumes "py_int 16 s = Inr n" and "c \<in> set s"
  shows "isspace c \<or> c = CHR ''-'' \<or> c = CHR ''+'' \<or> c = CHR ''x'' \<or> c = CHR ''X'' \<or> hex_digit c"
proof -
  obtain neg s2 where ss: "strip_sign (py_strip s) = (neg, s2)" by (cases "strip_sign (py_strip s)") auto
  with assms(1) obtain m where d: "digits_val 16 0 (strip_0x 16 s2) = Some m"
    by (auto simp: py_int_def Let_def split: if_splits option.splits)
  from in_set_py_strip [OF assms(2)] show ?thesis
  proof
    assume "isspace c" then show ?thesis by simp
  next
    assume "c \<in> set (py_strip s)"
    from in_set_strip_sign [OF ss this]
    consider "c = CHR ''-'' \<or> c = CHR ''+'' \<or> isspace c" | "c \<in> set s2" by blast
    then show ?thesis
    proof cases
      case 1 then show ?thesis by blast
    next
      case 2
      from in_set_strip_0x [OF 2, of 16]
      consider "c = CHR ''0''" | "c = CHR ''x'' \<or> c = CHR ''X''" | "c \<in> set (strip_0x 16 s2)" by blast
      then show ?thesis
      proof cases
        case 1 with hex_digit_0 show ?thesis by simp
      next
        case 2 then show ?thesis by blast
      next
        case 3
        from digits_val_hex [OF d 3] show ?thesis by simp
      qed
    qed
  qed
qed

lemma py_int_16_raises:
  assumes "c \<in> set s" "\<not> isspace c" "c \<noteq> CHR ''-''" "c \<noteq> CHR ''+''" "c \<noteq> CHR ''x''"
    "c \<noteq> CHR ''X''" "\<not> hex_digit c"
  shows "py_int 16 s = Inl ValueError"
proof (cases "py_int 16 s")
  case (Inl e)
  with py_int_error [OF Inl] show ?thesis by simp
next
  case (Inr n)
  from py_int_16_chars [OF Inr assms(1)] assms(2-) show ?thesis by blast
qed

lemma feed_line_some_nonempty: "feed_line p t = (Some line, p1, t1) \<Longrightarrow> t \<noteq> []"
  by (auto simp: feed_line_def)

lemma unpack3_fails:
  "length xs \<noteq> 3 \<Longrightarrow> (case xs of [a, b, c] \<Rightarrow> f a b c | _ \<Rightarrow> g) = g"
  by (auto split: list.splits)

lemma RequestHeader_start_line_raises:
  "length (py_split (CHR '' '') 2 (py_rstrip line)) \<noteq> 3 \<Longrightarrow>
     RequestHeader_set_start_line h line = Inl ValueError"
  by (simp add: RequestHeader_set_start_line_def unpack3_fails)

lemma ResponseHeader_start_line_raises:
  "length (py_split (CHR '' '') 2 (py_rstrip line)) \<noteq> 3 \<Longrightarrow>
     ResponseHeader_set_start_line h line = Inl ValueError"
  by (simp add: ResponseHeader_set_start_line_def unpack3_fails)

lemma feed_start_raises:
  assumes "feed_line p t = (Some line, p1, t1)" "p_mode p = Start" "line \<noteq> CRLF"
    "ssl (header p1) line = Inl e"
  shows "HTTPParser_feed ssl hb p t = Some (Inl e)"
  using assms feed_line_some_nonempty [OF assms(1)]
  by (simp add: HTTPParser_feed_def feed_start_block_def feed_start_def)

lemma add_header_raises:
  "\<not> is_continuation line \<Longrightarrow> line \<noteq> CRLF \<Longrightarrow> CHR '':'' \<notin> set line \<Longrightarrow>
     add_header h line = Inl ValueError"
  by (simp add: add_header_def)

lemma feed_headers_raises:
  assumes "feed_line p t = (Some line, p1, t1)" "p_mode p = Headers"
    "\<not> is_continuation line" "line \<noteq> CRLF" "CHR '':'' \<notin> set line"
  shows "HTTPParser_feed ssl hb p t = Some (Inl ValueError)"
proof -
  from feed_line_some_nonempty [OF assms(1)] have t: "t \<noteq> []" .
  have "feed_headers p t = Inl ValueError"
    using t assms(1) by (subst feed_headers.simps) (simp add: add_header_raises [OF assms(3-5)])
  with t assms(2) show ?thesis
    by (simp add: HTTPParser_feed_def feed_start_block_def feed_headers_block_def
        del: feed_headers.simps)
qed

lemma chunk_size_raises:
  assumes "feed_line p t = (Some line, p1, t1)" "p_mode p = Body"
    "body_reader p = Some (ChunkReader CStart r)"
    "py_int 16 (hd (py_split (CHR '';'') 1 line)) = Inl ValueError"
  shows "HTTPParser_feed ssl hb p t = Some (Inl ValueError)"
proof -
  from feed_line_some_nonempty [OF assms(1)] have t: "t \<noteq> []" .
  have "chunk_round CStart r p t = Inl ValueError"
    using assms(1,4) by (simp add: chunk_round_def chunk_size_part_def)
  with t have "ChunkReader_loop CStart r p t = Some (Inl ValueError)"
    by (subst ChunkReader_loop.simps) simp
  with t assms(2,3) show ?thesis
    by (simp add: HTTPParser_feed_def feed_start_block_def feed_headers_block_def
        feed_body_block_def ChunkReader_feed_def)
qed

text \<open>
  Lines that do make \<open>feed\<close> raise. A call of \<open>feed\<close> whose text completes a line
  (\<open>feed_line\<close> returns it) raises at that call, always Python's \<open>ValueError\<close>,
  when the line is (1) the start line of a request or of a response and does not
  split into three parts at spaces; (2) a header line that is no continuation line
  and not the blank line and holds no colon; (3) a chunk-size line whose token
  before any \<open>;\<close> holds a byte that is no hexadecimal digit and none of the bytes
  \<open>int\<close> tolerates around the digits (whitespace, a sign, the \<open>x\<close> of a \<open>0x\<close>
  prefix). An exception of the inherited \<open>feed\<close> leaves \<open>ResponseParser.feed\<close> as
  it is.
\<close>

theorem structural_failures_raise:
  "(feed_line p t = (Some line, p1, t1) \<and> p_mode p = Start \<and> line \<noteq> CRLF
      \<and> length (py_split (CHR '' '') 2 (py_rstrip line)) \<noteq> 3
    \<longrightarrow> RequestParser_feed p t = Some (Inl ValueError))
   \<and> (feed_line q t = (Some line, q1, t1) \<and> p_mode q = Start \<and> line \<noteq> CRLF
      \<and> length (py_split (CHR '' '') 2 (py_rstrip line)) \<noteq> 3
    \<longrightarrow> ResponseParser_feed sem q t = Some (Inl ValueError))
   \<and> (feed_line p' t = (Some line, p1', t1) \<and> p_mode p' = Headers
      \<and> \<not> is_continuation line \<and> line \<noteq> CRLF \<and> CHR '':'' \<notin> set line
    \<longrightarrow> HTTPParser_feed ssl hb p' t = Some (Inl ValueError))
   \<and> (feed_line p' t = (Some line, p1', t1) \<and> p_mode p' = Body
      \<and> body_reader p' = Some (ChunkReader CStart r)
      \<and> c \<in> set (hd (py_split (CHR '';'') 1 line))
      \<and> \<not> isspace c \<and> c \<noteq> CHR ''-'' \<and> c \<noteq> CHR ''+'' \<and> c \<noteq> CHR ''x'' \<and> c \<noteq> CHR ''X''
      \<and> \<not> hex_digit c
    \<longrightarrow> HTTPParser_feed ssl hb p' t = Some (Inl ValueError))
   \<and> (HTTPParser_feed ResponseHeader_set_start_line (ResponseHeader_has_body sem) q t = Some (Inl e)
    \<longrightarrow> ResponseParser_feed sem q t = Some (Inl e))"
proof (intro conjI impI)
  assume "feed_line p t = (Some line, p1, t1) \<and> p_mode p = Start \<and> line \<noteq> CRLF
      \<and> length (py_split (CHR '' '') 2 (py_rstrip line)) \<noteq> 3"
  then show "RequestParser_feed p t = Some (Inl ValueError)"
    unfolding RequestParser_feed_def
    by (intro feed_start_raises [where line = line] RequestHeader_start_line_raises) simp_all
next
  assume "feed_line q t = (Some line, q1, t1) \<and> p_mode q = Start \<and> line \<noteq> CRLF
      \<and> length (py_split (CHR '' '') 2 (py_rstrip line)) \<noteq> 3"
  then have "HTTPParser_feed ResponseHeader_set_start_line (ResponseHeader_has_body sem) q t
      = Some (Inl ValueError)"
    by (intro feed_start_raises [where line = line] ResponseHeader_start_line_raises) simp_all
  then show "ResponseParser_feed sem q t = Some (Inl ValueError)"
    by (simp add: ResponseParser_feed_def)
next
  assume "feed_line p' t = (Some line, p1', t1) \<and> p_mode p' = Headers
      \<and> \<not> is_continuation line \<and> line \<noteq> CRLF \<and> CHR '':'' \<notin> set line"
  then show "HTTPParser_feed ssl hb p' t = Some (Inl ValueError)"
    by (intro feed_headers_raises [where line = line]) simp_all
next
  assume a: "feed_line p' t = (Some line, p1', t1) \<and> p_mode p' = Body
      \<and> body_reader p' = Some (ChunkReader CStart r)
      \<and> c \<in> set (hd (py_split (CHR '';'') 1 line))
      \<and> \<not> isspace c \<and> c \<noteq> CHR ''-'' \<and> c \<noteq> CHR ''+'' \<and> c \<noteq> CHR ''x'' \<and> c \<noteq> CHR ''X''
      \<and> \<not> hex_digit c"
  then have "py_int 16 (hd (py_split (CHR '';'') 1 line)) = Inl ValueError"
    by (intro py_int_16_raises [where c = c]) simp_all
  with a show "HTTPParser_feed ssl hb p' t = Some (Inl ValueError)"
    by (intro chunk_size_raises [where line = line and r = r]) simp_all
next
  assume "HTTPParser_feed ResponseHeader_set_start_line (ResponseHeader_has_body sem) q t = Some (Inl e)"
  then show "ResponseParser_feed sem q t = Some (Inl e)"
    by (simp add: ResponseParser_feed_def)
qed

theorem structural_failures_raise_witness:
  "RequestParser_feed (RequestParser empty_buffer) (''GET'' @ CRLF) = Some (Inl ValueError)
   \<and> ResponseParser_feed example_semantics (ResponseParser empty_buffer get_header)
        (''HTTP/1.1'' @ CRLF) = Some (Inl ValueError)
   \<and> HTTPParser_feed RequestHeader_set_start_line RequestHeader_has_body
        ((RequestParser empty_buffer)\<lparr>p_mode := Headers\<rparr>) (''Host'' @ CRLF)
        = Some (Inl ValueError)
   \<and> HTTPParser_feed RequestHeader_set_start_line RequestHeader_has_body
        ((RequestParser empty_buffer)\<lparr>p_mode := Body, body_reader := Some (ChunkReader CStart 0)\<rparr>)
        (''4z'' @ CRLF)
        = Some (Inl ValueError)
   \<and> ResponseParser_feed example_semantics (ResponseParser empty_buffer get_header)
        (''HTTP/1.1 abc OK'' @ CRLF) = Some (Inl ValueError)"
proof -
  let ?P = "RequestParser empty_buffer"
  let ?Q = "ResponseParser empty_buffer get_header"
  let ?H = "?P\<lparr>p_mode := Headers\<rparr>"
  let ?B = "?P\<lparr>p_mode := Body, body_reader := Some (ChunkReader CStart 0)\<rparr>"
  have "fst (feed_line ?P (''GET'' @ CRLF)) = Some (''GET'' @ CRLF)" by code_simp
  then obtain p1 t1 where a1: "feed_line ?P (''GET'' @ CRLF) = (Some (''GET'' @ CRLF), p1, t1)"
    by (cases "feed_line ?P (''GET'' @ CRLF)") auto
  have a2: "p_mode ?P = Start \<and> ''GET'' @ CRLF \<noteq> CRLF
      \<and> length (py_split (CHR '' '') 2 (py_rstrip (''GET'' @ CRLF))) \<noteq> 3" by code_simp
  from structural_failures_raise [where p = ?P and t = "''GET'' @ CRLF"
      and line = "''GET'' @ CRLF" and ?p1.0 = p1 and ?t1.0 = t1] a1 a2
  have A: "RequestParser_feed ?P (''GET'' @ CRLF) = Some (Inl ValueError)" by blast
  have "fst (feed_line ?Q (''HTTP/1.1'' @ CRLF)) = Some (''HTTP/1.1'' @ CRLF)" by code_simp
  then obtain q1 u1 where b1: "feed_line ?Q (''HTTP/1.1'' @ CRLF) = (Some (''HTTP/1.1'' @ CRLF), q1, u1)"
    by (cases "feed_line ?Q (''HTTP/1.1'' @ CRLF)") auto
  have b2: "p_mode ?Q = Start \<and> ''HTTP/1.1'' @ CRLF \<noteq> CRLF
      \<and> length (py_split (CHR '' '') 2 (py_rstrip (''HTTP/1.1'' @ CRLF))) \<noteq> 3" by code_simp
  from structural_failures_raise [where q = ?Q and t = "''HTTP/1.1'' @ CRLF"
      and line = "''HTTP/1.1'' @ CRLF" and ?q1.0 = q1 and ?t1.0 = u1 and sem = example_semantics] b1 b2
  have B: "ResponseParser_feed example_semantics ?Q (''HTTP/1.1'' @ CRLF) = Some (Inl ValueError)"
    by blast
  have "fst (feed_line ?H (''Host'' @ CRLF)) = Some (''Host'' @ CRLF)" by code_simp
  then obtain h1 v1 where c1: "feed_line ?H (''Host'' @ CRLF) = (Some (''Host'' @ CRLF), h1, v1)"
    by (cases "feed_line ?H (''Host'' @ CRLF)") auto
  have c2: "p_mode ?H = Headers \<and> \<not> is_continuation (''Host'' @ CRLF) \<and> ''Host'' @ CRLF \<noteq> CRLF
      \<and> CHR '':'' \<notin> set (''Host'' @ CRLF)" by code_simp
  from structural_failures_raise [where p' = ?H and t = "''Host'' @ CRLF"
      and line = "''Host'' @ CRLF" and ?p1' = h1 and ?t1.0 = v1
      and ssl = RequestHeader_set_start_line and hb = RequestHeader_has_body] c1 c2
  have C: "HTTPParser_feed RequestHeader_set_start_line RequestHeader_has_body ?H (''Host'' @ CRLF)
      = Some (Inl ValueError)" by blast
  have "fst (feed_line ?B (''4z'' @ CRLF)) = Some (''4z'' @ CRLF)" by code_simp
  then obtain g1 w1 where d1: "feed_line ?B (''4z'' @ CRLF) = (Some (''4z'' @ CRLF), g1, w1)"
    by (cases "feed_line ?B (''4z'' @ CRLF)") auto
  have d2: "p_mode ?B = Body \<and> body_reader ?B = Some (ChunkReader CStart 0)
      \<and> CHR ''z'' \<in> set (hd (py_split (CHR '';'') 1 (''4z'' @ CRLF)))
      \<and> \<not> isspace (CHR ''z'') \<and> CHR ''z'' \<noteq> CHR ''-'' \<and> CHR ''z'' \<noteq> CHR ''+''
      \<and> CHR ''z'' \<noteq> CHR ''x'' \<and> CHR ''z'' \<noteq> CHR ''X'' \<and> \<not> hex_digit (CHR ''z'')" by code_simp
  from structural_failures_raise [where p' = ?B and t = "''4z'' @ CRLF"
      and line = "''4z'' @ CRLF" and ?p1' = g1 and ?t1.0 = w1 and r = 0 and c = "CHR ''z''"
      and ssl = RequestHeader_set_start_line and hb = RequestHeader_has_body] d1 d2
  have D: "HTTPParser_feed RequestHeader_set_start_line RequestHeader_has_body ?B (''4z'' @ CRLF)
      = Some (Inl ValueError)" by blast
  have e1: "HTTPParser_feed ResponseHeader_set_start_line (ResponseHeader_has_body example_semantics)
      ?Q (''HTTP/1.1 abc OK'' @ CRLF) = Some (Inl ValueError)" by code_simp
  from structural_failures_raise [where q = ?Q and t = "''HTTP/1.1 abc OK'' @ CRLF"
      and sem = example_semantics and e = ValueError] e1
  have E: "ResponseParser_feed example_semantics ?Q (''HTTP/1.1 abc OK'' @ CRLF) = Some (Inl ValueError)"
    by blast
  from A B C D E show ?thesis by blast
qed

text \<open>The same on lines that are not the first of their call.\<close>

lemma later_lines_raise:
  "feeds RequestParser_feed (RequestParser empty_buffer)
     [''GET / HTTP/1.1'' @ CRLF @ ''Host: a'' @ CRLF @ ''Bad'' @ CRLF] = Some (Inl ValueError)
   \<and> feeds RequestParser_feed (RequestParser empty_buffer)
     [chunked_request_head @ ''4'' @ CRLF @ ''Wiki'' @ CRLF @ ''zz'' @ CRLF] = Some (Inl ValueError)
   \<and> feeds RequestParser_feed (RequestParser empty_buffer)
     [CRLF, ''GET'' @ CRLF] = Some (Inl ValueError)"
  by code_simp

lemma chunked_negative_size_never_returns:
  "feeds RequestParser_feed (RequestParser empty_buffer)
     [chunked_request_head, ''-5'' @ CRLF @ ''abc''] = None"
proof -
  let ?t = "''-5'' @ CRLF @ ''abc''"
  have "(case RequestParser_feed (RequestParser empty_buffer) chunked_request_head of
           Some (Inr (p1, r)) \<Rightarrow>
             p_mode p1 = Body \<and> body_reader p1 = Some (ChunkReader CStart 0)
             \<and> (case chunk_round CStart 0 p1 ?t of
                   Inr (cm, rem, p2, t2) \<Rightarrow> cm = CChunk \<and> rem = - 5 \<and> t2 = ''abc''
                 | Inl e \<Rightarrow> False)
         | _ \<Rightarrow> False)"
    by code_simp
  then obtain p1 r p2 where
    f: "RequestParser_feed (RequestParser empty_buffer) chunked_request_head = Some (Inr (p1, r))"
    and m: "p_mode p1 = Body" "body_reader p1 = Some (ChunkReader CStart 0)"
    and c: "chunk_round CStart 0 p1 ?t = Inr (CChunk, - 5, p2, ''abc'')"
    by (auto split: option.splits sum.splits prod.splits)
  have t: "?t \<noteq> []" by simp
  have "ChunkReader_loop CStart 0 p1 ?t = ChunkReader_loop CChunk (- 5) p2 ''abc''"
    using t c by (subst ChunkReader_loop.simps) simp
  also have "\<dots> = None" by (rule ChunkReader_loop_negative_size) simp_all
  finally have l: "ChunkReader_loop CStart 0 p1 ?t = None" .
  have "RequestParser_feed p1 ?t = None"
    using t m l
    by (simp add: RequestParser_feed_def HTTPParser_feed_def feed_start_block_def
        feed_headers_block_def feed_body_block_def ChunkReader_feed_def)
  with f show ?thesis by simp
qed

text \<open>
  Claim C5 (a non-hexadecimal chunk-size token makes \<open>feed\<close> raise) at chunk-size
  tokens with a sign or a \<open>0x\<close> prefix, which \<open>int(token, 16)\<close> accepts. With the
  size \<open>-5\<close> and text after the size line the call raises nothing and never
  returns; with the sizes \<open>+4\<close> and \<open>0x0\<close> the body is read to \<open>End\<close> and nothing
  is raised.
\<close>

theorem chunk_size_sign_and_prefix_accepted:
  "feeds RequestParser_feed (RequestParser empty_buffer)
     [chunked_request_head, ''-5'' @ CRLF @ ''abc''] = None
   \<and> map_option p_mode (returned_parser
        (feeds RequestParser_feed (RequestParser empty_buffer)
           [chunked_request_head, ''+4'' @ CRLF @ ''Wiki'' @ CRLF @ ''0x0'' @ CRLF @ CRLF]))
      = Some End
   \<and> returned_rest
        (feeds RequestParser_feed (RequestParser empty_buffer)
           [chunked_request_head, ''+4'' @ CRLF @ ''Wiki'' @ CRLF @ ''0x0'' @ CRLF @ CRLF])
      = Some []"
proof -
  have "map_option p_mode (returned_parser
        (feeds RequestParser_feed (RequestParser empty_buffer)
           [chunked_request_head, ''+4'' @ CRLF @ ''Wiki'' @ CRLF @ ''0x0'' @ CRLF @ CRLF]))
      = Some End
   \<and> returned_rest
        (feeds RequestParser_feed (RequestParser empty_buffer)
           [chunked_request_head, ''+4'' @ CRLF @ ''Wiki'' @ CRLF @ ''0x0'' @ CRLF @ CRLF])
      = Some []"
    by code_simp
  with chunked_negative_size_never_returns show ?thesis by (rule conjI)
qed

end
